theory Spec2Isabelle
  imports Complex_Main "HOL-Library.Multiset" "HOL-Library.Monad_Syntax"
begin

section \<open>Floor labels and the processing order (LTD\_summary.py)\<close>

text \<open>
  Floor labels are the keys of the JSON object read by \<open>group_columns_by_alignment\<close>.
  They are modelled as ASCII strings. \<open>upper\<close> is \<open>str.upper\<close> on ASCII and
  \<open>startswith\<close> is \<open>str.startswith\<close>.
\<close>

definition upper_char :: "char \<Rightarrow> char" where
  "upper_char c =
     (let n = (of_char c :: nat) in if 97 \<le> n \<and> n \<le> 122 then char_of (n - 32) else c)"

definition upper :: "string \<Rightarrow> string" where
  "upper s = map upper_char s"

definition startswith :: "string \<Rightarrow> string \<Rightarrow> bool" where
  "startswith s p = (take (length p) s = p)"

text \<open>
  \<open>py_int\<close> is \<open>int(level)\<close> on a string, in base 10: surrounding whitespace is
  dropped, one sign may precede the digits, single underscores may stand between
  digits, and anything else raises \<open>ValueError\<close> (here \<open>None\<close>). The whitespace
  that \<open>int\<close> drops from an ASCII string is the blank and the characters 9 to 13
  (tab, line feed, vertical tab, form feed, carriage return).
\<close>

definition is_space :: "char \<Rightarrow> bool" where
  "is_space c = (let n = (of_char c :: nat) in (9 \<le> n \<and> n \<le> 13) \<or> n = 32)"

definition is_digit :: "char \<Rightarrow> bool" where
  "is_digit c = (let n = (of_char c :: nat) in 48 \<le> n \<and> n \<le> 57)"

definition digit_val :: "char \<Rightarrow> nat" where
  "digit_val c = (of_char c :: nat) - 48"

definition strip :: "string \<Rightarrow> string" where
  "strip s = rev (dropWhile is_space (rev (dropWhile is_space s)))"

fun digits_value :: "nat \<Rightarrow> string \<Rightarrow> nat option" where
  "digits_value acc [] = Some acc"
| "digits_value acc [c] = (if is_digit c then Some (10 * acc + digit_val c) else None)"
| "digits_value acc (c # d # cs) =
     (if is_digit c then digits_value (10 * acc + digit_val c) (d # cs)
      else if c = CHR ''_'' \<and> is_digit d then digits_value (10 * acc + digit_val d) cs
      else None)"

definition unsigned_value :: "string \<Rightarrow> nat option" where
  "unsigned_value s =
     (case s of [] \<Rightarrow> None
      | c # cs \<Rightarrow> if is_digit c then digits_value (digit_val c) cs else None)"

definition py_int :: "string \<Rightarrow> int option" where
  "py_int s =
     (case strip s of [] \<Rightarrow> None
      | c # cs \<Rightarrow>
          if c = CHR ''-'' then map_option (\<lambda>n. - int n) (unsigned_value cs)
          else if c = CHR ''+'' then map_option int (unsigned_value cs)
          else map_option int (unsigned_value (c # cs)))"

definition floor_sort_key :: "string \<Rightarrow> int" where
  "floor_sort_key level =
     (if startswith (upper level) ''RF'' then 999
      else if startswith (upper level) ''LB'' then - 1
      else (case py_int level of Some n \<Rightarrow> n | None \<Rightarrow> 0))"

text \<open>
  \<open>sorted(keys, key=floor_sort_key, reverse=True)\<close>: Python's sort is stable, also with
  \<open>reverse=True\<close>, so labels with equal keys keep their order in the input. The
  insertion sort \<open>sort_key\<close> on the negated key is the same stable descending sort.
\<close>

definition ordered_floors :: "string list \<Rightarrow> string list" where
  "ordered_floors keys = sort_key (\<lambda>level. - floor_sort_key level) keys"


section \<open>Cross-floor grouping (LTD\_summary.py, \<open>group_columns_by_alignment\<close>)\<close>

text \<open>
  Coordinates, areas and loads are Python floats; they are modelled as real numbers.
  One entry of a floor's \<open>"columns"\<close> list in the JSON file has the keys \<open>X\<close> and
  \<open>Y\<close> and may have \<open>Area\<close>, \<open>WeightedArea\<close> and \<open>Type\<close>, which the code reads
  with \<open>c.get(key, default)\<close>. The JSON object \<open>data\<close> is the list of its
  (label, floor) members in file order; a floor may lack the \<open>"columns"\<close> member.
\<close>

record json_col =
  X :: real
  Y :: real
  Area :: "real option"
  WeightedArea :: "real option"
  Type :: "string option"

type_synonym json_floor = "json_col list option"

type_synonym json_data = "(string \<times> json_floor) list"

text \<open>The tuple \<open>(floor, x, y, area, w_area, ctype)\<close> stored in a group.\<close>

record point_entry =
  p_floor :: string
  p_x :: real
  p_y :: real
  p_area :: real
  p_w_area :: real
  p_ctype :: string

record group =
  gid :: string
  points :: "point_entry list"

definition get_or :: "'a option \<Rightarrow> 'a \<Rightarrow> 'a" where
  "get_or v d = (case v of Some a \<Rightarrow> a | None \<Rightarrow> d)"

text \<open>The entry built from \<open>floors_data[floor]\<close> for one element of the list.\<close>

definition entry_of :: "string \<Rightarrow> json_col \<Rightarrow> point_entry" where
  "entry_of fl c =
     \<lparr>p_floor = fl, p_x = X c, p_y = Y c, p_area = get_or (Area c) 0,
      p_w_area = get_or (WeightedArea c) 0, p_ctype = get_or (Type c) ''Unknown''\<rparr>"

definition floors_data :: "json_data \<Rightarrow> string \<Rightarrow> point_entry list" where
  "floors_data data fl =
     (case map_of data fl of
        Some (Some cols) \<Rightarrow> map (entry_of fl) cols
      | _ \<Rightarrow> [])"

text \<open>\<open>math.dist((x, y), (last_x, last_y))\<close>.\<close>

definition dist2 :: "real \<times> real \<Rightarrow> real \<times> real \<Rightarrow> real" where
  "dist2 p q = sqrt ((fst p - fst q)\<^sup>2 + (snd p - snd q)\<^sup>2)"

definition near :: "real \<Rightarrow> point_entry \<Rightarrow> group \<Rightarrow> bool" where
  "near match_radius e g =
     (dist2 (p_x e, p_y e) (p_x (last (points g)), p_y (last (points g))) \<le> match_radius)"

text \<open>
  The inner \<open>for group in column_groups\<close> loop with its \<open>break\<close>: the position in
  \<open>column_groups\<close> of the group that \<open>matched_group\<close> refers to, if any.
\<close>

fun find_matched :: "real \<Rightarrow> point_entry \<Rightarrow> group list \<Rightarrow> nat option" where
  "find_matched match_radius e [] = None"
| "find_matched match_radius e (g # gs) =
     (if near match_radius e g then Some 0
      else map_option Suc (find_matched match_radius e gs))"

text \<open>\<open>f"C{column_id:03d}"\<close>: the decimal digits, padded with zeros to three.\<close>

fun decimal :: "nat \<Rightarrow> string" where
  "decimal n = (if n < 10 then [char_of (48 + n)] else decimal (n div 10) @ [char_of (48 + n mod 10)])"

definition column_label :: "nat \<Rightarrow> string" where
  "column_label column_id =
     ''C'' @ replicate (3 - length (decimal column_id)) CHR ''0'' @ decimal column_id"

text \<open>
  One pass of the body of \<open>for col in floors_data[floor]\<close>. The state is
  \<open>(column_groups, column_id)\<close>; appending to \<open>matched_group["points"]\<close> changes the
  group inside \<open>column_groups\<close>.
\<close>

definition place :: "real \<Rightarrow> point_entry \<Rightarrow> group list \<times> nat \<Rightarrow> group list \<times> nat" where
  "place match_radius e st =
     (case st of (column_groups, column_id) \<Rightarrow>
        (case find_matched match_radius e column_groups of
           Some i \<Rightarrow>
             (column_groups[i := (column_groups ! i)\<lparr>points := points (column_groups ! i) @ [e]\<rparr>],
              column_id)
         | None \<Rightarrow>
             (column_groups @ [\<lparr>gid = column_label column_id, points = [e]\<rparr>],
              column_id + 1)))"

definition place_floor :: "real \<Rightarrow> json_data \<Rightarrow> string \<Rightarrow> group list \<times> nat \<Rightarrow> group list \<times> nat" where
  "place_floor match_radius data fl st = fold (place match_radius) (floors_data data fl) st"

definition column_groups_of :: "real \<Rightarrow> json_data \<Rightarrow> group list" where
  "column_groups_of match_radius data =
     fst (fold (place_floor match_radius data) (ordered_floors (map fst data)) ([], 1))"

text \<open>The default of the parameter \<open>match_radius\<close>.\<close>

definition default_match_radius :: real where
  "default_match_radius = 5 / 10"


subsection \<open>Report rows\<close>

datatype py_error = StopIteration | IndexError | ValueError | QhullError

text \<open>
  \<open>round(x, ndigits)\<close> on the real number \<open>x\<close>: the nearest multiple of
  \<open>10\<^sup>-\<^sup>n\<close>, a tie going to the even one.
\<close>

definition py_round :: "real \<Rightarrow> nat \<Rightarrow> real" where
  "py_round x ndigits =
     (let s = x * 10 ^ ndigits; f = \<lfloor>s\<rfloor>; d = s - of_int f
      in of_int (if d < 1 / 2 then f else if 1 / 2 < d then f + 1
                 else if even f then f else f + 1) / 10 ^ ndigits)"

text \<open>\<open>[weighted_areas[i:i+2] for i in range(0, len(weighted_areas), 2)]\<close>.\<close>

fun weighted_pairs :: "real list \<Rightarrow> real list list" where
  "weighted_pairs [] = []"
| "weighted_pairs [a] = [[a]]"
| "weighted_pairs (a # b # ws) = [a, b] # weighted_pairs ws"

text \<open>\<open>list(dict.fromkeys(floors))\<close>: the first occurrence of each label, in order.\<close>

definition unique_floors :: "string list \<Rightarrow> string list" where
  "unique_floors floors = rev (remdups (rev floors))"

text \<open>
  \<open>weighted_pairs[i][k] if i < len(weighted_pairs) and len(weighted_pairs[i]) > k else None\<close>.
\<close>

definition pair_item :: "real list list \<Rightarrow> nat \<Rightarrow> nat \<Rightarrow> real option" where
  "pair_item pairs i k =
     (if i < length pairs \<and> k < length (pairs ! i) then Some (pairs ! i ! k) else None)"

text \<open>
  \<open>round(w, 2) if w else None\<close>: \<open>None\<close> and the number zero are both false in
  Python.
\<close>

definition load_cell :: "real option \<Rightarrow> real option" where
  "load_cell w =
     (case w of None \<Rightarrow> None
      | Some v \<Rightarrow> if v \<noteq> 0 then Some (py_round v 2) else None)"

text \<open>
  A row of the result table. The three totals are the empty string (here \<open>None\<close>) on
  every row of a group but its first.
\<close>

record row =
  Column_ID :: string
  row_X :: real
  row_Y :: real
  Floor :: string
  row_Type :: string
  Area_m2 :: real
  Permanent_Load :: "real option"
  Imposed_Load :: "real option"
  Total_Permanent_Load :: "real option"
  Total_Imposed_Load :: "real option"
  Total_SLS_Load :: "real option"

text \<open>\<open>next(p[3] for p in group["points"] if p[0] == floor)\<close>.\<close>

definition next_area :: "point_entry list \<Rightarrow> string \<Rightarrow> py_error + real" where
  "next_area pts fl =
     (case find (\<lambda>p. p_floor p = fl) pts of
        Some p \<Rightarrow> Inr (p_area p)
      | None \<Rightarrow> Inl StopIteration)"

text \<open>The loop that sets \<open>ftype\<close>.\<close>

definition floor_type :: "point_entry list \<Rightarrow> string \<Rightarrow> string" where
  "floor_type pts fl =
     (case find (\<lambda>p. p_floor p = fl) pts of
        Some p \<Rightarrow> p_ctype p
      | None \<Rightarrow> ''Unknown'')"

text \<open>
  The body of \<open>for i, floor in enumerate(unique_floors)\<close>. It runs only for a label of
  one of the group's points, so \<open>group["points"][0]\<close> exists whenever it runs.
\<close>

definition make_row ::
  "group \<Rightarrow> real list list \<Rightarrow> real \<Rightarrow> real \<Rightarrow> real \<Rightarrow> nat \<times> string \<Rightarrow> py_error + row" where
  "make_row g pairs total_perm total_imposed total_sls ifl =
     (case ifl of (i, fl) \<Rightarrow>
        (case next_area (points g) fl of
           Inl err \<Rightarrow> Inl err
         | Inr a \<Rightarrow>
             Inr \<lparr>Column_ID = gid g,
                  row_X = py_round (p_x (hd (points g))) 2,
                  row_Y = py_round (p_y (hd (points g))) 2,
                  Floor = fl,
                  row_Type = floor_type (points g) fl,
                  Area_m2 = py_round a 2,
                  Permanent_Load = load_cell (pair_item pairs i 0),
                  Imposed_Load = load_cell (pair_item pairs i 1),
                  Total_Permanent_Load = (if i = 0 then Some total_perm else None),
                  Total_Imposed_Load = (if i = 0 then Some total_imposed else None),
                  Total_SLS_Load = (if i = 0 then Some total_sls else None)\<rparr>))"

text \<open>A loop that appends one result per element and stops at the first exception.\<close>

fun collect :: "('a \<Rightarrow> py_error + 'b) \<Rightarrow> 'a list \<Rightarrow> py_error + 'b list" where
  "collect f [] = Inr []"
| "collect f (x # xs) =
     (case f x of
        Inl err \<Rightarrow> Inl err
      | Inr y \<Rightarrow> (case collect f xs of Inl err \<Rightarrow> Inl err | Inr ys \<Rightarrow> Inr (y # ys)))"

definition group_rows :: "group \<Rightarrow> py_error + row list" where
  "group_rows g =
     (let floors = map p_floor (points g);
          weighted_areas = map p_w_area (points g);
          total_sls = py_round (sum_list weighted_areas) 2;
          pairs = weighted_pairs weighted_areas;
          perm_loads = map (\<lambda>pair. pair ! 0) (filter (\<lambda>pair. 0 < length pair) pairs);
          imposed_loads = map (\<lambda>pair. pair ! 1) (filter (\<lambda>pair. 1 < length pair) pairs);
          total_perm = py_round (sum_list perm_loads) 2;
          total_imposed = py_round (sum_list imposed_loads) 2
      in collect (make_row g pairs total_perm total_imposed total_sls)
           (enumerate 0 (unique_floors floors)))"

definition group_columns_by_alignment :: "real \<Rightarrow> json_data \<Rightarrow> py_error + row list" where
  "group_columns_by_alignment match_radius data =
     (case collect group_rows (column_groups_of match_radius data) of
        Inl err \<Rightarrow> Inl err
      | Inr rows \<Rightarrow> Inr (concat rows))"


section \<open>Weighted Voronoi cells (vornoi5.py)\<close>

type_synonym point = "real \<times> real"

text \<open>
  The geometry itself is computed by two libraries: \<open>shapely\<close> (polygons, their
  intersection, emptiness test and area, the union of a list of polygons and the
  exterior ring) and \<open>scipy.spatial.Voronoi\<close>. Their operations are parameters of the
  model: a record of the \<open>shapely\<close> operations over a type \<open>'g\<close> of geometries, and
  a function for \<open>Voronoi\<close>, which raises \<open>QhullError\<close> on sites it cannot triangulate.
  \<open>Single\<close> is a \<open>Polygon\<close>, \<open>Multi\<close> a geometry with parts (\<open>geoms\<close>).
\<close>

datatype 'g geometry = Single 'g | Multi "'g list" | NoGeoms

record 'g shapely =
  Polygon :: "point list \<Rightarrow> 'g"
  intersection :: "'g \<Rightarrow> 'g \<Rightarrow> 'g"
  is_empty :: "'g \<Rightarrow> bool"
  area :: "'g \<Rightarrow> real"
  exterior :: "'g \<Rightarrow> point list"
  unary_union :: "'g list \<Rightarrow> 'g geometry"

text \<open>
  The attributes of a \<open>Voronoi\<close> object that the code reads. \<open>points\<close> and
  \<open>vertices\<close> are arrays with one row of coordinates per site or vertex. An index \<open>-1\<close> in
  \<open>ridge_vertices\<close> and \<open>regions\<close> stands for a vertex at infinity.
\<close>

record voronoi =
  vor_points :: "real list list"
  vertices :: "real list list"
  ridge_points :: "(nat \<times> nat) list"
  ridge_vertices :: "(int \<times> int) list"
  regions :: "int list list"
  point_region :: "int list"

text \<open>
  \<open>Voronoi\<close> hands the sites to Qhull, which raises \<open>QhullError\<close> when it cannot
  build its first simplex: in the plane, when all the sites lie on one line (and so for
  fewer than three sites too). \<open>Voronoi_qhull\<close> is \<open>Voronoi\<close> with this behaviour
  written out; the diagram it returns otherwise is a parameter, and the \<open>points\<close> of
  that diagram are the sites.
\<close>

definition on_one_line :: "point list \<Rightarrow> bool" where
  "on_one_line sites =
     list_all (\<lambda>p. list_all (\<lambda>q. list_all (\<lambda>r.
         (fst q - fst p) * (snd r - snd p) - (snd q - snd p) * (fst r - fst p) = 0)
       sites) sites) sites"

definition Voronoi_qhull :: "(point list \<Rightarrow> voronoi) \<Rightarrow> point list \<Rightarrow> py_error + voronoi" where
  "Voronoi_qhull diagram sites =
     (if on_one_line sites then Inl QhullError
      else Inr ((diagram sites)\<lparr>vor_points := map (\<lambda>p. [fst p, snd p]) sites\<rparr>))"

subsection \<open>\<open>voronoi_finite_polygons_2d\<close>\<close>

text \<open>
  Indexing a list or an array with a Python integer: a negative index counts from the
  end, and an index out of range raises \<open>IndexError\<close> (here \<open>None\<close>, in the loops
  below, which raise nothing else).
\<close>

definition py_nth :: "'a list \<Rightarrow> int \<Rightarrow> 'a option" where
  "py_nth xs i =
     (if 0 \<le> i \<and> i < int (length xs) then Some (xs ! nat i)
      else if i < 0 \<and> - int (length xs) \<le> i then Some (xs ! nat (int (length xs) + i))
      else None)"

text \<open>A row of a two-column array as a point.\<close>

definition as_point :: "real list \<Rightarrow> point" where
  "as_point row = (row ! 0, row ! 1)"

definition mean0 :: "point list \<Rightarrow> point" where
  "mean0 ps = (sum_list (map fst ps) / real (length ps), sum_list (map snd ps) / real (length ps))"

definition ptp :: "real list \<Rightarrow> real" where
  "ptp xs = fold max xs (hd xs) - fold min xs (hd xs)"

definition default_radius :: "point list \<Rightarrow> real" where
  "default_radius ps = max (ptp (map fst ps)) (ptp (map snd ps)) * 2"

definition norm2 :: "point \<Rightarrow> real" where
  "norm2 t = sqrt ((fst t)\<^sup>2 + (snd t)\<^sup>2)"

definition dot2 :: "point \<Rightarrow> point \<Rightarrow> real" where
  "dot2 a b = fst a * fst b + snd a * snd b"

definition arctan2 :: "real \<Rightarrow> real \<Rightarrow> real" where
  "arctan2 y x =
     (if 0 < x then arctan (y / x)
      else if x < 0 then (if 0 \<le> y then arctan (y / x) + pi else arctan (y / x) - pi)
      else if 0 < y then pi / 2 else if y < 0 then - (pi / 2) else 0)"

text \<open>
  \<open>all_ridges[p]\<close>: for every ridge \<open>(p1, p2), (v1, v2)\<close> in the order of the diagram,
  \<open>(p2, v1, v2)\<close> is appended to the list of \<open>p1\<close> and \<open>(p1, v1, v2)\<close> to the list
  of \<open>p2\<close>.
\<close>

definition all_ridges :: "voronoi \<Rightarrow> nat \<Rightarrow> (nat \<times> int \<times> int) list" where
  "all_ridges vor p =
     concat (map (\<lambda>((p1, p2), (v1, v2)).
                (if p1 = p then [(p2, v1, v2)] else []) @ (if p2 = p then [(p1, v1, v2)] else []))
              (zip (ridge_points vor) (ridge_vertices vor)))"

text \<open>
  The body of \<open>for p2, v1, v2 in ridges\<close>; the state is
  \<open>(new_vertices, new_region)\<close>.
\<close>

definition extend_ridge ::
  "voronoi \<Rightarrow> point \<Rightarrow> real \<Rightarrow> nat \<Rightarrow> nat \<times> int \<times> int \<Rightarrow> point list \<times> nat list
     \<Rightarrow> (point list \<times> nat list) option" where
  "extend_ridge vor center radius p1 ridge st =
     (case ridge of (p2, v1, v2) \<Rightarrow>
      case st of (new_vertices, new_region) \<Rightarrow>
        (let (v1', v2') = (if v2 < 0 then (v2, v1) else (v1, v2))
         in if 0 \<le> v1' then Some st
            else do {
              a \<leftarrow> map_option as_point (py_nth (vor_points vor) (int p1));
              b \<leftarrow> map_option as_point (py_nth (vor_points vor) (int p2));
              far \<leftarrow> map_option as_point (py_nth (vertices vor) v2');
              let d = (fst b - fst a, snd b - snd a);
              let t = (fst d / norm2 d, snd d / norm2 d);
              let n = (- snd t, fst t);
              let midpoint = mean0 [a, b];
              let s = sgn (dot2 (fst midpoint - fst center, snd midpoint - snd center) n);
              let far_point = (fst far + s * fst n * radius, snd far + s * snd n * radius);
              Some (new_vertices @ [far_point], new_region @ [length new_vertices])
            }))"

fun extend_ridges ::
  "voronoi \<Rightarrow> point \<Rightarrow> real \<Rightarrow> nat \<Rightarrow> (nat \<times> int \<times> int) list \<Rightarrow> point list \<times> nat list
     \<Rightarrow> (point list \<times> nat list) option" where
  "extend_ridges vor center radius p1 [] st = Some st"
| "extend_ridges vor center radius p1 (ridge # ridges) st =
     (case extend_ridge vor center radius p1 ridge st of
        None \<Rightarrow> None
      | Some st' \<Rightarrow> extend_ridges vor center radius p1 ridges st')"

text \<open>
  Sorting a region's vertices by their angle around the mean of the vertices
  (\<open>np.argsort\<close> of \<open>np.arctan2\<close>; vertices at equal angles keep their order).
\<close>

definition sort_by_angle :: "point list \<Rightarrow> nat list \<Rightarrow> nat list option" where
  "sort_by_angle new_vertices new_region =
     do {
       vs \<leftarrow> those (map (\<lambda>v. py_nth new_vertices (int v)) new_region);
       let c = mean0 vs;
       let angles = map (\<lambda>q. arctan2 (snd q - snd c) (fst q - fst c)) vs;
       Some (map (\<lambda>k. new_region ! k) (sort_key (\<lambda>k. angles ! k) [0..<length new_region]))
     }"

text \<open>
  The body of \<open>for p1, region_idx in enumerate(vor.point_region)\<close>; the state is
  \<open>(new_regions, new_vertices)\<close>.
\<close>

definition finite_region ::
  "voronoi \<Rightarrow> point \<Rightarrow> real \<Rightarrow> nat \<times> int \<Rightarrow> nat list list \<times> point list
     \<Rightarrow> (nat list list \<times> point list) option" where
  "finite_region vor center radius pr st =
     (case pr of (p1, region_idx) \<Rightarrow>
      case st of (new_regions, new_vertices) \<Rightarrow>
        do {
          verts \<leftarrow> py_nth (regions vor) region_idx;
          if verts = [] \<or> list_all (\<lambda>v. 0 \<le> v) verts
          then Some (new_regions @ [map nat verts], new_vertices)
          else do {
            (new_vertices', new_region) \<leftarrow>
              extend_ridges vor center radius p1 (all_ridges vor p1)
                (new_vertices, map nat (filter (\<lambda>v. 0 \<le> v) verts));
            if length new_region < 3 then Some (new_regions, new_vertices')
            else do {
              sorted_region \<leftarrow> sort_by_angle new_vertices' new_region;
              Some (new_regions @ [sorted_region], new_vertices')
            }
          }
        })"

fun finite_regions ::
  "voronoi \<Rightarrow> point \<Rightarrow> real \<Rightarrow> (nat \<times> int) list \<Rightarrow> nat list list \<times> point list
     \<Rightarrow> (nat list list \<times> point list) option" where
  "finite_regions vor center radius [] st = Some st"
| "finite_regions vor center radius (pr # prs) st =
     (case finite_region vor center radius pr st of
        None \<Rightarrow> None
      | Some st' \<Rightarrow> finite_regions vor center radius prs st')"

text \<open>
  The function starts with the test \<open>vor.points.shape[1] != 2\<close>, which raises
  \<open>ValueError("Requires 2D input")\<close>; the shape of an array without rows has no second
  entry. \<open>radius\<close> is always \<open>None\<close> in this program.
\<close>

definition voronoi_finite_polygons_2d :: "voronoi \<Rightarrow> py_error + (nat list list \<times> point list)" where
  "voronoi_finite_polygons_2d vor =
     (case vor_points vor of
        [] \<Rightarrow> Inl IndexError
      | row # _ \<Rightarrow>
          if length row \<noteq> 2 then Inl ValueError
          else
            (let pts = map as_point (vor_points vor)
             in case finite_regions vor (mean0 pts) (default_radius pts)
                       (enumerate 0 (point_region vor)) ([], map as_point (vertices vor)) of
                  None \<Rightarrow> Inl IndexError
                | Some res \<Rightarrow> Inr res))"

subsection \<open>\<open>compute_weighted_voronoi\<close>\<close>

text \<open>An element of \<open>weighted_zones\<close> and an element of the result list.\<close>

record 'g zone =
  polygon :: 'g
  weight :: real

record 'g region =
  index :: nat
  point :: point
  area_raw :: real
  area_weighted :: real
  region_polygon :: 'g

text \<open>
  The area that a zone shares with a cell, as the loop below counts it: the area of the
  intersection when the intersection is not empty.
\<close>

definition overlap :: "'g shapely \<Rightarrow> 'g \<Rightarrow> 'g zone \<Rightarrow> real" where
  "overlap K poly z =
     (if is_empty K (intersection K poly (polygon z)) then 0
      else area K (intersection K poly (polygon z)))"

text \<open>The loop \<open>for zone in weighted_zones\<close> that accumulates \<open>weighted_sum\<close>.\<close>

definition weighted_sum :: "'g shapely \<Rightarrow> 'g \<Rightarrow> 'g zone list \<Rightarrow> real" where
  "weighted_sum K poly weighted_zones =
     fold (\<lambda>zone acc.
             (let inter = intersection K poly (polygon zone)
              in if \<not> is_empty K inter then acc + area K inter * weight zone else acc))
          weighted_zones 0"

text \<open>
  The body of \<open>for i, region in enumerate(regions)\<close>: \<open>Inr None\<close> is a
  \<open>continue\<close>, \<open>Inr (Some r)\<close> is the record appended to \<open>results\<close>.
\<close>

definition cell_of ::
  "'g shapely \<Rightarrow> 'g \<Rightarrow> point list \<Rightarrow> 'g zone list \<Rightarrow> point list \<Rightarrow> nat \<times> nat list
     \<Rightarrow> py_error + 'g region option" where
  "cell_of K boundary_poly interior_points weighted_zones verts ir =
     (case ir of (i, reg) \<Rightarrow>
        if reg = [] \<or> list_ex (\<lambda>v. length verts \<le> v) reg then Inr None
        else
          (let poly = intersection K (Polygon K (map (\<lambda>v. verts ! v) reg)) boundary_poly
           in if is_empty K poly then Inr None
              else if length interior_points \<le> i then Inl IndexError
              else Inr (Some \<lparr>index = i, point = interior_points ! i,
                               area_raw = area K poly,
                               area_weighted = weighted_sum K poly weighted_zones,
                               region_polygon = poly\<rparr>)))"

fun cells_of ::
  "'g shapely \<Rightarrow> 'g \<Rightarrow> point list \<Rightarrow> 'g zone list \<Rightarrow> point list \<Rightarrow> (nat \<times> nat list) list
     \<Rightarrow> py_error + 'g region list" where
  "cells_of K boundary_poly interior_points weighted_zones verts [] = Inr []"
| "cells_of K boundary_poly interior_points weighted_zones verts (ir # irs) =
     (case cell_of K boundary_poly interior_points weighted_zones verts ir of
        Inl err \<Rightarrow> Inl err
      | Inr c \<Rightarrow>
          (case cells_of K boundary_poly interior_points weighted_zones verts irs of
             Inl err \<Rightarrow> Inl err
           | Inr results \<Rightarrow> Inr (case c of None \<Rightarrow> results | Some r \<Rightarrow> r # results)))"

definition compute_weighted_voronoi ::
  "'g shapely \<Rightarrow> (point list \<Rightarrow> py_error + voronoi) \<Rightarrow> point list \<Rightarrow> point list \<Rightarrow> 'g zone list
     \<Rightarrow> py_error + ('g region list \<times> 'g)" where
  "compute_weighted_voronoi K Voronoi boundary_coords interior_points weighted_zones =
     (let boundary_poly = Polygon K boundary_coords
      in if interior_points = [] \<or> length interior_points < 3 then Inr ([], boundary_poly)
         else
           (case Voronoi interior_points of
              Inl err \<Rightarrow> Inl err
            | Inr vor \<Rightarrow>
                (case voronoi_finite_polygons_2d vor of
                   Inl err \<Rightarrow> Inl err
                 | Inr (regs, verts) \<Rightarrow>
                     (case cells_of K boundary_poly interior_points weighted_zones verts
                             (enumerate 0 regs) of
                        Inl err \<Rightarrow> Inl err
                      | Inr results \<Rightarrow> Inr (results, boundary_poly)))))"

subsection \<open>The per-floor passes of \<open>generate_voronoi_floor_plots\<close>\<close>

text \<open>
  A load zone of the loading file: its \<open>"Vertices"\<close> (absent: the empty list) and its
  \<open>"UnitLoad"\<close>, absent or \<open>null\<close> when no unit load was assigned.
\<close>

record json_zone =
  Vertices :: "point list option"
  UnitLoad :: "real option"

definition unit_load_of :: "string \<Rightarrow> json_zone \<Rightarrow> real" where
  "unit_load_of load_type z =
     (case UnitLoad z of
        None \<Rightarrow> if load_type = ''Permanent Loading'' then 1 else 8 / 10
      | Some u \<Rightarrow> u)"

text \<open>The loop \<open>for zone in load_zones\<close> that builds \<open>weighted_zones\<close>.\<close>

fun weighted_zones_of :: "'g shapely \<Rightarrow> string \<Rightarrow> json_zone list \<Rightarrow> 'g zone list" where
  "weighted_zones_of K load_type [] = []"
| "weighted_zones_of K load_type (z # zs) =
     (let verts = get_or (Vertices z) []
      in if 3 \<le> length verts
         then \<lparr>polygon = Polygon K verts, weight = unit_load_of load_type z\<rparr>
                # weighted_zones_of K load_type zs
         else weighted_zones_of K load_type zs)"

text \<open>The record appended to \<open>output_data[floor_level]["columns"]\<close> for one region.\<close>

definition type_tag :: "point list \<Rightarrow> point list \<Rightarrow> point \<Rightarrow> string" where
  "type_tag wall_points foundation_points p =
     (if p \<in> set wall_points then ''Wall''
      else if p \<in> set foundation_points then ''Foundation''
      else ''Column'')"

definition output_column :: "point list \<Rightarrow> point list \<Rightarrow> 'g region \<Rightarrow> json_col" where
  "output_column wall_points foundation_points r =
     \<lparr>X = fst (point r), Y = snd (point r),
      Area = Some (py_round (area_raw r) 3),
      WeightedArea = Some (py_round (area_weighted r) 3),
      Type = Some (type_tag wall_points foundation_points (point r))\<rparr>"

text \<open>
  One pass of \<open>for load_type in ["Permanent Loading", "Imposed Loading"]\<close> over a
  floor with a boundary: the records it appends to the floor's \<open>"columns"\<close>. The sites
  are the columns, the wall samples and the foundations of the floor, in this order.
\<close>

definition load_pass ::
  "'g shapely \<Rightarrow> (point list \<Rightarrow> py_error + voronoi) \<Rightarrow> point list \<Rightarrow> point list \<Rightarrow> point list
     \<Rightarrow> point list \<Rightarrow> string \<Rightarrow> json_zone list \<Rightarrow> py_error + json_col list" where
  "load_pass K Voronoi boundary col_points wall_points foundation_points load_type load_zones =
     (if load_zones = [] then Inr []
      else
        (let weighted_zones = weighted_zones_of K load_type load_zones
         in if weighted_zones = [] then Inr []
            else
              (case compute_weighted_voronoi K Voronoi boundary
                      (col_points @ wall_points @ foundation_points) weighted_zones of
                 Inl err \<Rightarrow> Inl err
               | Inr (regs, boundary_poly) \<Rightarrow>
                   Inr (map (output_column wall_points foundation_points) regs))))"

section \<open>Floor outlines (LTD\_floor4.py, \<open>generate_merged_floor_json\<close>)\<close>

text \<open>
  \<open>max(merged_polys, key=lambda p: p.area)\<close> on a list that is not empty: the first
  polygon whose area no other exceeds.
\<close>

fun max_by_area :: "'g shapely \<Rightarrow> 'g \<Rightarrow> 'g list \<Rightarrow> 'g" where
  "max_by_area K best [] = best"
| "max_by_area K best (p # ps) =
     (if area K best < area K p then max_by_area K p ps else max_by_area K best ps)"

text \<open>
  The end of the loop over the level groups: from \<open>all_polygons\<close> to the coordinates
  stored in \<open>merged_floor_data[group_name]\<close>, or \<open>None\<close> when nothing is stored. The
  union is a single polygon, a geometry with parts (\<open>geoms\<close>) or neither.
\<close>

definition merged_polys_of :: "'g geometry \<Rightarrow> 'g list" where
  "merged_polys_of merged_area =
     (case merged_area of Single p \<Rightarrow> [p] | Multi ps \<Rightarrow> ps | NoGeoms \<Rightarrow> [])"

definition main_outline :: "'g shapely \<Rightarrow> 'g list \<Rightarrow> point list option" where
  "main_outline K all_polygons =
     (if all_polygons = [] then None
      else
        (case merged_polys_of (unary_union K all_polygons) of
           [] \<Rightarrow> None
         | p # ps \<Rightarrow> Some (exterior K (max_by_area K p ps))))"


section \<open>An instance of the geometry operations: convex polygons as rings\<close>

text \<open>
  A polygon is the ring of its corners. Its area is half the absolute value of the sum
  of the cross products of consecutive corners. The intersection clips the first ring
  by every edge of the second in turn, keeping what lies to the left of the edge: this
  is the intersection of plane geometry when the second ring is convex and runs
  counter-clockwise.
\<close>

definition side :: "point \<Rightarrow> point \<Rightarrow> point \<Rightarrow> real" where
  "side a b p = (fst b - fst a) * (snd p - snd a) - (snd b - snd a) * (fst p - fst a)"

definition crossing :: "point \<Rightarrow> point \<Rightarrow> point \<Rightarrow> point \<Rightarrow> point" where
  "crossing a b p q =
     (let t = side a b p / (side a b p - side a b q)
      in (fst p + t * (fst q - fst p), snd p + t * (snd q - snd p)))"

fun clip_walk :: "point \<Rightarrow> point \<Rightarrow> point \<Rightarrow> point list \<Rightarrow> point list" where
  "clip_walk a b s [] = []"
| "clip_walk a b s (e # es) =
     (if 0 \<le> side a b e
      then (if 0 \<le> side a b s then [e] else [crossing a b s e, e])
      else (if 0 \<le> side a b s then [crossing a b s e] else []))
     @ clip_walk a b e es"

definition clip_edge :: "point \<times> point \<Rightarrow> point list \<Rightarrow> point list" where
  "clip_edge ab ring = (if ring = [] then [] else clip_walk (fst ab) (snd ab) (last ring) ring)"

definition ring_edges :: "point list \<Rightarrow> (point \<times> point) list" where
  "ring_edges ring = (if ring = [] then [] else zip ring (tl ring @ [hd ring]))"

definition ring_intersection :: "point list \<Rightarrow> point list \<Rightarrow> point list" where
  "ring_intersection subject clip = fold clip_edge (ring_edges clip) subject"

definition ring_area :: "point list \<Rightarrow> real" where
  "ring_area ring =
     \<bar>sum_list (map (\<lambda>(p, q). fst p * snd q - fst q * snd p) (ring_edges ring))\<bar> / 2"

definition ring_union :: "point list list \<Rightarrow> point list geometry" where
  "ring_union rs = (case rs of [r] \<Rightarrow> Single r | _ \<Rightarrow> Multi rs)"

definition ring_kernel :: "point list shapely" where
  "ring_kernel =
     \<lparr>Polygon = (\<lambda>ring. ring), intersection = ring_intersection, is_empty = (\<lambda>ring. ring = []),
      area = ring_area, exterior = (\<lambda>ring. ring), unary_union = ring_union\<rparr>"

text \<open>
  The Voronoi diagram of the three sites (0, 0), (3, 0) and (0, 4), the corners of a
  right triangle: its only vertex is the centre (1.5, 2) of the circle through the
  sites, and the three ridges run from this vertex to infinity.
\<close>

definition three_sites :: "point list" where
  "three_sites = [(0, 0), (3, 0), (0, 4)]"

definition three_site_diagram :: voronoi where
  "three_site_diagram =
     \<lparr>vor_points = [[0, 0], [3, 0], [0, 4]],
      vertices = [[3 / 2, 2]],
      ridge_points = [(0, 1), (0, 2), (1, 2)],
      ridge_vertices = [(- 1, 0), (- 1, 0), (- 1, 0)],
      regions = [[], [- 1, 0], [- 1, 0], [- 1, 0]],
      point_region = [1, 2, 3]\<rparr>"

text \<open>
  The vertices of this diagram after the three infinite regions are made finite: the
  vertex of the diagram, followed by the two far points of each site in turn. The far
  points lie 8 away from the vertex, twice the larger side of the sites' bounding box.
  The three finite regions, with their corners sorted by angle, are the triangles
  below.
\<close>

definition far_vertices :: "point list" where
  "far_vertices = [(3 / 2, 2), (3 / 2, - 6), (- 13 / 2, 2), (3 / 2, - 6), (79 / 10, 34 / 5),
          (- 13 / 2, 2), (79 / 10, 34 / 5)]"

definition cell_0 :: "point list" where
  "cell_0 = [(3 / 2, - 6), (3 / 2, 2), (- 13 / 2, 2)]"

definition cell_1 :: "point list" where
  "cell_1 = [(3 / 2, - 6), (79 / 10, 34 / 5), (3 / 2, 2)]"

definition cell_2 :: "point list" where
  "cell_2 = [(- 13 / 2, 2), (3 / 2, 2), (79 / 10, 34 / 5)]"

definition unit_square :: "point list" where
  "unit_square = [(0, 0), (1, 0), (1, 1), (0, 1)]"

text \<open>A square floor of 20 m by 20 m around the three sites.\<close>

definition floor_20m :: "point list" where
  "floor_20m = [(- 10, - 10), (10, - 10), (10, 10), (- 10, 10)]"

text \<open>
  Load zones on this floor: its western and its eastern half, which share only the
  line \<open>x = 0\<close>, and a square that lies outside the floor.
\<close>

definition west_half :: "point list" where
  "west_half = [(- 10, - 10), (0, - 10), (0, 10), (- 10, 10)]"

definition east_half :: "point list" where
  "east_half = [(0, - 10), (10, - 10), (10, 10), (0, 10)]"

definition far_square :: "point list" where
  "far_square = [(20, 20), (21, 20), (21, 21), (20, 21)]"

section \<open>The processing order of the floors\<close>

lemma of_char_upper_char:
  "(of_char (upper_char a) :: nat) =
     (if 97 \<le> (of_char a :: nat) \<and> (of_char a :: nat) \<le> 122 then of_char a - 32 else of_char a)"
  unfolding upper_char_def Let_def by (auto simp: of_char_of)

lemma upper_char_letter:
  assumes "upper_char a = CHR ''R'' \<or> upper_char a = CHR ''L''"
  shows "\<not> is_space a \<and> \<not> is_digit a \<and> a \<noteq> CHR ''-'' \<and> a \<noteq> CHR ''+''"
proof -
  have "(of_char (upper_char a) :: nat) = 82 \<or> (of_char (upper_char a) :: nat) = 76"
    using assms by auto
  then have n: "(of_char a :: nat) \<in> {82, 114, 76, 108}"
    unfolding of_char_upper_char by (auto split: if_splits)
  have "(of_char a :: nat) \<noteq> of_char CHR ''-'' \<and> (of_char a :: nat) \<noteq> of_char CHR ''+''"
    using n by auto
  then have "a \<noteq> CHR ''-'' \<and> a \<noteq> CHR ''+''" by blast
  then show ?thesis using n unfolding is_space_def is_digit_def Let_def by auto
qed

text \<open>The first character of a label is a blank or the first character of its stripped form.\<close>

lemma strip_first:
  assumes "strip l = c # cs"
  shows "l \<noteq> [] \<and> (is_space (hd l) \<or> hd l = c)"
proof -
  let ?ys = "dropWhile is_space l"
  have 1: "rev (dropWhile is_space (rev ?ys)) = c # cs" using assms by (simp add: strip_def)
  have "\<exists>zs. ?ys = rev (dropWhile is_space (rev ?ys)) @ zs"
    by (metis rev_append rev_rev_ident takeWhile_dropWhile_id)
  then obtain zs where "?ys = (c # cs) @ zs" using 1 by metis
  then have ys: "?ys = c # (cs @ zs)" by simp
  then have "l \<noteq> []" by auto
  moreover have "is_space (hd l) \<or> hd l = c"
  proof (cases "is_space (hd l)")
    case True then show ?thesis by simp
  next
    case False
    with \<open>l \<noteq> []\<close> have "?ys = l" by (cases l) auto
    with ys show ?thesis by simp
  qed
  ultimately show ?thesis by simp
qed

lemma py_int_first:
  assumes "py_int l = Some n"
  shows "\<exists>c cs. strip l = c # cs \<and> (c = CHR ''-'' \<or> c = CHR ''+'' \<or> is_digit c)"
  using assms unfolding py_int_def unsigned_value_def
  by (auto split: list.splits if_splits)

lemma startswith_upper_hd:
  assumes "startswith (upper l) [a, b]"
  shows "l \<noteq> [] \<and> upper_char (hd l) = a"
  using assms unfolding startswith_def upper_def by (cases l) auto

text \<open>A label that \<open>int\<close> accepts starts with neither \<open>RF\<close> nor \<open>LB\<close>.\<close>

lemma py_int_not_prefixed:
  assumes "py_int l = Some n"
  shows "\<not> startswith (upper l) ''RF'' \<and> \<not> startswith (upper l) ''LB''"
proof -
  obtain c cs where s: "strip l = c # cs" and c: "c = CHR ''-'' \<or> c = CHR ''+'' \<or> is_digit c"
    using py_int_first[OF assms] by blast
  from strip_first[OF s] have h: "is_space (hd l) \<or> hd l = c" by simp
  have "upper_char (hd l) \<noteq> CHR ''R'' \<and> upper_char (hd l) \<noteq> CHR ''L''"
    using upper_char_letter[of "hd l"] h c by auto
  then show ?thesis using startswith_upper_hd by blast
qed

lemma floor_sort_key_int: "py_int l = Some n \<Longrightarrow> floor_sort_key l = n"
  using py_int_not_prefixed[of l n] by (simp add: floor_sort_key_def)

lemma ordered_floors_stable:
  "filter (\<lambda>l. floor_sort_key l = k) (ordered_floors ks) = filter (\<lambda>l. floor_sort_key l = k) ks"
proof -
  have "filter (\<lambda>l. - floor_sort_key l = - k) (sort_key (\<lambda>l. - floor_sort_key l) ks)
      = filter (\<lambda>l. - floor_sort_key l = - k) ks"
    by (rule sort_key_stable)
  then show ?thesis by (simp add: ordered_floors_def)
qed

text \<open>
  Claim C4, as stated, fails: \<open>RF\<close> has the key 999 and \<open>LB\<close> the key -1, so a numeric
  label above 999 is processed before \<open>RF\<close> and a numeric label below -1 after
  \<open>LB\<close>.
\<close>

theorem floor_sort_key_counterexample:
  "floor_sort_key ''-2'' < floor_sort_key ''LB'' \<and>
   floor_sort_key ''RF'' < floor_sort_key ''1000'' \<and>
   ordered_floors [''-2'', ''LB'', ''RF'', ''1000''] = [''1000'', ''RF'', ''LB'', ''-2'']"
  by code_simp

text \<open>
  Claim C4, amended. The floors are processed in the stable descending order of an
  integer key: 999 for a label that starts with \<open>RF\<close> (in any case), -1 for a label that
  starts with \<open>LB\<close>, the numeric value for a label that \<open>int\<close> accepts, and 0 for every
  other label. The order is a rearrangement of the labels, and labels with equal keys
  keep the order of the input.
\<close>

theorem floor_order:
  "(startswith (upper l) ''RF'' \<longrightarrow> floor_sort_key l = 999) \<and>
   (\<not> startswith (upper l) ''RF'' \<and> startswith (upper l) ''LB'' \<longrightarrow> floor_sort_key l = - 1) \<and>
   (py_int l = Some n \<longrightarrow> floor_sort_key l = n) \<and>
   (\<not> startswith (upper l) ''RF'' \<and> \<not> startswith (upper l) ''LB'' \<and> py_int l = None
      \<longrightarrow> floor_sort_key l = 0) \<and>
   sorted (rev (map floor_sort_key (ordered_floors ks))) \<and>
   mset (ordered_floors ks) = mset ks \<and>
   filter (\<lambda>l. floor_sort_key l = k) (ordered_floors ks) = filter (\<lambda>l. floor_sort_key l = k) ks"
proof -
  have "sorted (map (\<lambda>l. - floor_sort_key l) (ordered_floors ks))"
    by (simp add: ordered_floors_def)
  then have "sorted (map uminus (map floor_sort_key (ordered_floors ks)))"
    by (simp add: comp_def)
  then have desc: "sorted (rev (map floor_sort_key (ordered_floors ks)))"
    by (simp add: sorted_wrt_rev sorted_map sorted_wrt_map)
  have perm: "mset (ordered_floors ks) = mset ks" by (simp add: ordered_floors_def)
  show ?thesis
    using desc perm ordered_floors_stable[of k ks] floor_sort_key_int[of l n]
    by (simp add: floor_sort_key_def)
qed

theorem floor_order_witness:
  "startswith (upper ''rf1'') ''RF'' \<and> floor_sort_key ''rf1'' = 999 \<and>
   \<not> startswith (upper ''LB2'') ''RF'' \<and> startswith (upper ''LB2'') ''LB'' \<and>
   floor_sort_key ''LB2'' = - 1 \<and>
   py_int ''02'' = Some 2 \<and> floor_sort_key ''02'' = 2 \<and>
   \<not> startswith (upper ''B1'') ''RF'' \<and> \<not> startswith (upper ''B1'') ''LB'' \<and>
   py_int ''B1'' = None \<and> floor_sort_key ''B1'' = 0"
proof -
  have a: "startswith (upper ''rf1'') ''RF''" by code_simp
  have b: "\<not> startswith (upper ''LB2'') ''RF'' \<and> startswith (upper ''LB2'') ''LB''" by code_simp
  have c: "py_int ''02'' = Some 2" by code_simp
  have d: "\<not> startswith (upper ''B1'') ''RF'' \<and> \<not> startswith (upper ''B1'') ''LB'' \<and>
           py_int ''B1'' = None" by code_simp
  show ?thesis
    using a b c d floor_order[of "''rf1''" 0 "[]" 0] floor_order[of "''LB2''" 0 "[]" 0]
      floor_order[of "''02''" 2 "[]" 0] floor_order[of "''B1''" 0 "[]" 0]
    by simp
qed


section \<open>Grouping across floors\<close>

lemma find_matched_Some:
  "find_matched r e gs = Some i \<Longrightarrow>
     i < length gs \<and> near r e (gs ! i) \<and> (\<forall>j<i. \<not> near r e (gs ! j))"
proof (induction gs arbitrary: i)
  case Nil
  then show ?case by simp
next
  case (Cons g gs)
  show ?case
  proof (cases "near r e g")
    case True
    with Cons.prems show ?thesis by simp
  next
    case False
    with Cons.prems obtain k where k: "find_matched r e gs = Some k" and i: "i = Suc k"
      by auto
    from Cons.IH[OF k]
    have "k < length gs \<and> near r e (gs ! k) \<and> (\<forall>j<k. \<not> near r e (gs ! j))" .
    with False i show ?thesis by (auto simp: less_Suc_eq_0_disj)
  qed
qed

lemma find_matched_None:
  "(find_matched r e gs = None) = (\<forall>j<length gs. \<not> near r e (gs ! j))"
proof (induction gs)
  case Nil
  then show ?case by simp
next
  case (Cons g gs)
  then show ?case by (auto simp: less_Suc_eq_0_disj)
qed

lemma find_matched_first:
  assumes "i < length gs" "near r e (gs ! i)" "\<forall>j<i. \<not> near r e (gs ! j)"
  shows "find_matched r e gs = Some i"
proof (cases "find_matched r e gs")
  case None
  with assms show ?thesis by (simp add: find_matched_None)
next
  case (Some k)
  from find_matched_Some[OF Some]
  have k: "k < length gs" "near r e (gs ! k)" "\<forall>j<k. \<not> near r e (gs ! j)"
    by auto
  have "\<not> k < i" using assms(3) k(2) by blast
  moreover have "\<not> i < k" using k(3) assms(2) by blast
  ultimately have "k = i" by simp
  with Some show ?thesis by simp
qed

lemma near_appended:
  "near r e' (g\<lparr>points := points g @ [e]\<rparr>) =
     (sqrt ((p_x e' - p_x e)\<^sup>2 + (p_y e' - p_y e)\<^sup>2) \<le> r)"
  by (simp add: near_def dist2_def)

text \<open>For a radius that is not negative the test compares the squares.\<close>

lemma near_squares:
  "0 \<le> r \<Longrightarrow> near r e g =
     ((p_x e - p_x (last (points g)))\<^sup>2 + (p_y e - p_y (last (points g)))\<^sup>2 \<le> r\<^sup>2)"
  unfolding near_def dist2_def fst_conv snd_conv
  by (metis abs_of_nonneg real_sqrt_abs real_sqrt_le_iff)

lemma fold_floors_concat:
  "fold (\<lambda>fl. fold f (h fl)) fls st = fold f (concat (map h fls)) st"
  by (induction fls arbitrary: st) simp_all

lemma column_groups_of_concat:
  "column_groups_of r data =
     fst (fold (place r) (concat (map (floors_data data) (ordered_floors (map fst data)))) ([], 1))"
proof -
  have "place_floor r data = (\<lambda>fl. fold (place r) (floors_data data fl))"
    by (rule ext)+ (simp add: place_floor_def)
  then show ?thesis by (simp add: column_groups_of_def fold_floors_concat)
qed

text \<open>Placing an entry adds it to the entries held by the groups, and nothing else.\<close>

lemma place_mset:
  "mset (concat (map points (fst (place r e (gs, n))))) = mset (concat (map points gs)) + {#e#}"
proof (cases "find_matched r e gs")
  case None
  then show ?thesis by (simp add: place_def)
next
  case (Some i)
  from find_matched_Some[OF Some] have i: "i < length gs" by simp
  let ?g = "(gs ! i)\<lparr>points := points (gs ! i) @ [e]\<rparr>"
  have a: "gs = take i gs @ gs ! i # drop (Suc i) gs" using i by (simp add: id_take_nth_drop)
  have b: "gs[i := ?g] = take i gs @ ?g # drop (Suc i) gs"
    using i by (simp add: upd_conv_take_nth_drop)
  have "mset (concat (map points (gs[i := ?g]))) =
          mset (concat (map points (take i gs))) + mset (points (gs ! i)) + {#e#}
            + mset (concat (map points (drop (Suc i) gs)))"
    by (subst b) simp
  also have "\<dots> = mset (concat (map points (take i gs @ gs ! i # drop (Suc i) gs))) + {#e#}"
    by simp
  also have "\<dots> = mset (concat (map points gs)) + {#e#}" using a by simp
  finally show ?thesis using Some by (simp add: place_def)
qed

lemma fold_place_mset:
  "mset (concat (map points (fst (fold (place r) es st)))) =
     mset (concat (map points (fst st))) + mset es"
proof (induction es arbitrary: st)
  case Nil
  then show ?case by simp
next
  case (Cons e es)
  obtain gs n where st: "st = (gs, n)" by (cases st)
  show ?case using Cons.IH[of "place r e (gs, n)"] place_mset[of r e gs n]
    by (simp add: st)
qed

lemma column_label_1: "column_label (Suc 0) = ''C001''"
  by code_simp

lemma ordered_02_01: "ordered_floors [''02'', ''01''] = [''02'', ''01'']"
  by code_simp

lemma py_round_2_3: "py_round 2 3 = 2"
  by (simp add: py_round_def)

text \<open>
  Claim C1, as stated, fails: the grouping reads every record of a floor's
  \<open>"columns"\<close> list, and \<open>generate_voronoi_floor_plots\<close> writes the wall samples and the
  foundations into that list too, tagged \<open>Wall\<close> and \<open>Foundation\<close>. Here a wall sample
  on floor 01, 0.2 m from a column on floor 02, is appended to the column's group.
\<close>

theorem wall_entry_joins_column_group:
  "column_groups_of default_match_radius
     [(''02'', Some [output_column [] []
          \<lparr>index = 0, point = (1, 1), area_raw = 2, area_weighted = 2,
           region_polygon = ()\<rparr>]),
      (''01'', Some [output_column [(1, 12 / 10)] []
          \<lparr>index = 0, point = (1, 12 / 10), area_raw = 2, area_weighted = 2,
           region_polygon = ()\<rparr>])]
   = [\<lparr>gid = ''C001'',
       points =
         [\<lparr>p_floor = ''02'', p_x = 1, p_y = 1, p_area = 2, p_w_area = 2,
           p_ctype = ''Column''\<rparr>,
          \<lparr>p_floor = ''01'', p_x = 1, p_y = 12 / 10, p_area = 2, p_w_area = 2,
           p_ctype = ''Wall''\<rparr>]\<rparr>]"
  by (simp add: column_groups_of_def ordered_02_01 place_floor_def floors_data_def entry_of_def
      output_column_def type_tag_def get_or_def py_round_2_3 place_def column_label_1
      default_match_radius_def near_squares power2_eq_square)

text \<open>
  Claim C1, amended. Every record of every floor's \<open>"columns"\<close> list takes part in the
  grouping, whatever its role: the entries held by the groups at the end of a run are
  exactly the entries of all floors, each once, and the entry of a record carries the
  record's \<open>Type\<close> along without the grouping reading it.
\<close>

theorem every_entry_grouped:
  "mset (concat (map points (column_groups_of r data))) =
     mset (concat (map (floors_data data) (ordered_floors (map fst data)))) \<and>
   floors_data ((fl, Some cols) # rest) fl = map (entry_of fl) cols \<and>
   p_ctype (entry_of fl c) = get_or (Type c) ''Unknown''"
  by (simp add: column_groups_of_concat fold_place_mset floors_data_def entry_of_def)

text \<open>
  Claim C3. One entry is placed as follows. If some group's last position is within
  the match radius, the entry is appended to the first such group in creation order;
  if none is, a new group seeded at the entry is appended to the list of groups. The
  entry appended to a group is the position that later entries are compared with. A run
  places the entries of the floors in the sorted order of the floors, the entries of
  one floor in the order of its list, starting from no group. The default radius is
  0.5.
\<close>

theorem first_match_grouping:
  "(i < length gs \<and> near r e (gs ! i) \<and> (\<forall>j<i. \<not> near r e (gs ! j)) \<longrightarrow>
      place r e (gs, n) = (gs[i := (gs ! i)\<lparr>points := points (gs ! i) @ [e]\<rparr>], n)) \<and>
   ((\<forall>j<length gs. \<not> near r e (gs ! j)) \<longrightarrow>
      place r e (gs, n) = (gs @ [\<lparr>gid = column_label n, points = [e]\<rparr>], n + 1)) \<and>
   near r e (g\<lparr>points := points g @ [e']\<rparr>) =
     (sqrt ((p_x e - p_x e')\<^sup>2 + (p_y e - p_y e')\<^sup>2) \<le> r) \<and>
   near r e g = (sqrt ((p_x e - p_x (last (points g)))\<^sup>2 + (p_y e - p_y (last (points g)))\<^sup>2) \<le> r) \<and>
   column_groups_of r data =
     fst (fold (place r) (concat (map (floors_data data) (ordered_floors (map fst data)))) ([], 1)) \<and>
   floors_data ((fl, Some cols) # rest) fl = map (entry_of fl) cols \<and>
   default_match_radius = 5 / 10"
proof -
  have a: "i < length gs \<and> near r e (gs ! i) \<and> (\<forall>j<i. \<not> near r e (gs ! j)) \<longrightarrow>
      place r e (gs, n) = (gs[i := (gs ! i)\<lparr>points := points (gs ! i) @ [e]\<rparr>], n)"
    using find_matched_first[of i gs r e] by (auto simp: place_def)
  have b: "(\<forall>j<length gs. \<not> near r e (gs ! j)) \<longrightarrow>
      place r e (gs, n) = (gs @ [\<lparr>gid = column_label n, points = [e]\<rparr>], n + 1)"
    using find_matched_None[of r e gs] by (auto simp: place_def)
  have c: "near r e g =
      (sqrt ((p_x e - p_x (last (points g)))\<^sup>2 + (p_y e - p_y (last (points g)))\<^sup>2) \<le> r)"
    by (simp add: near_def dist2_def)
  have d: "floors_data ((fl, Some cols) # rest) fl = map (entry_of fl) cols"
    by (simp add: floors_data_def)
  show ?thesis
    using a b c d near_appended[of r e g e'] column_groups_of_concat[of r data]
    by (simp add: default_match_radius_def)
qed


theorem first_match_grouping_witness:
  "near (1 / 2)
     \<lparr>p_floor = ''01'', p_x = 0, p_y = 0, p_area = 1, p_w_area = 1, p_ctype = ''Column''\<rparr>
     \<lparr>gid = ''C001'', points = [\<lparr>p_floor = ''02'', p_x = 3 / 10, p_y = 4 / 10, p_area = 1,
         p_w_area = 1, p_ctype = ''Column''\<rparr>]\<rparr> \<and>
   place (1 / 2)
     \<lparr>p_floor = ''01'', p_x = 0, p_y = 0, p_area = 1, p_w_area = 1, p_ctype = ''Column''\<rparr>
     ([\<lparr>gid = ''C001'', points = [\<lparr>p_floor = ''02'', p_x = 3 / 10, p_y = 4 / 10, p_area = 1,
          p_w_area = 1, p_ctype = ''Column''\<rparr>]\<rparr>,
       \<lparr>gid = ''C002'', points = [\<lparr>p_floor = ''02'', p_x = 0, p_y = 0, p_area = 1,
          p_w_area = 1, p_ctype = ''Column''\<rparr>]\<rparr>], 3)
   = ([\<lparr>gid = ''C001'', points = [\<lparr>p_floor = ''02'', p_x = 3 / 10, p_y = 4 / 10, p_area = 1,
          p_w_area = 1, p_ctype = ''Column''\<rparr>,
          \<lparr>p_floor = ''01'', p_x = 0, p_y = 0, p_area = 1, p_w_area = 1,
           p_ctype = ''Column''\<rparr>]\<rparr>,
       \<lparr>gid = ''C002'', points = [\<lparr>p_floor = ''02'', p_x = 0, p_y = 0, p_area = 1,
          p_w_area = 1, p_ctype = ''Column''\<rparr>]\<rparr>], 3) \<and>
   \<not> near (1 / 2)
     \<lparr>p_floor = ''01'', p_x = 5, p_y = 5, p_area = 1, p_w_area = 1, p_ctype = ''Column''\<rparr>
     \<lparr>gid = ''C001'', points = [\<lparr>p_floor = ''02'', p_x = 3 / 10, p_y = 4 / 10, p_area = 1,
         p_w_area = 1, p_ctype = ''Column''\<rparr>]\<rparr> \<and>
   place (1 / 2)
     \<lparr>p_floor = ''01'', p_x = 5, p_y = 5, p_area = 1, p_w_area = 1, p_ctype = ''Column''\<rparr>
     ([\<lparr>gid = ''C001'', points = [\<lparr>p_floor = ''02'', p_x = 3 / 10, p_y = 4 / 10, p_area = 1,
          p_w_area = 1, p_ctype = ''Column''\<rparr>]\<rparr>], 2)
   = ([\<lparr>gid = ''C001'', points = [\<lparr>p_floor = ''02'', p_x = 3 / 10, p_y = 4 / 10, p_area = 1,
          p_w_area = 1, p_ctype = ''Column''\<rparr>]\<rparr>,
       \<lparr>gid = column_label 2, points = [\<lparr>p_floor = ''01'', p_x = 5, p_y = 5, p_area = 1,
          p_w_area = 1, p_ctype = ''Column''\<rparr>]\<rparr>], 3)"
proof -
  let ?a = "\<lparr>p_floor = ''02'', p_x = 3 / 10, p_y = 4 / 10, p_area = 1, p_w_area = 1,
             p_ctype = ''Column''\<rparr>"
  let ?b = "\<lparr>p_floor = ''02'', p_x = 0, p_y = 0, p_area = 1, p_w_area = 1,
             p_ctype = ''Column''\<rparr>"
  let ?e = "\<lparr>p_floor = ''01'', p_x = 0, p_y = 0, p_area = 1, p_w_area = 1,
             p_ctype = ''Column''\<rparr>"
  let ?f = "\<lparr>p_floor = ''01'', p_x = 5, p_y = 5, p_area = 1, p_w_area = 1,
             p_ctype = ''Column''\<rparr>"
  let ?g1 = "\<lparr>gid = ''C001'', points = [?a]\<rparr>"
  let ?g2 = "\<lparr>gid = ''C002'', points = [?b]\<rparr>"
  have n1: "near (1 / 2) ?e ?g1" by (simp add: near_squares power2_eq_square)
  have n2: "\<not> near (1 / 2) ?f ?g1" by (simp add: near_squares power2_eq_square)
  have h1: "0 < length [?g1, ?g2] \<and> near (1 / 2) ?e ([?g1, ?g2] ! 0) \<and>
            (\<forall>j<0. \<not> near (1 / 2) ?e ([?g1, ?g2] ! j))"
    using n1 by simp
  have h2: "\<forall>j<length [?g1]. \<not> near (1 / 2) ?f ([?g1] ! j)" using n2 by simp
  show ?thesis
    using n1 n2 h1 h2
      first_match_grouping[of 0 "[?g1, ?g2]" "1 / 2" ?e 3 ?g1 ?e "[]" "''01''" "[]" "[]"]
      first_match_grouping[of 0 "[?g1]" "1 / 2" ?f 2 ?g1 ?e "[]" "''01''" "[]" "[]"]
    by simp
qed


section \<open>Report rows\<close>

lemma collect_Inr:
  "collect f xs = Inr ys \<Longrightarrow> length ys = length xs \<and> (\<forall>i<length xs. f (xs ! i) = Inr (ys ! i))"
proof (induction xs arbitrary: ys)
  case Nil
  then show ?case by simp
next
  case (Cons x xs)
  from Cons.prems obtain y ys' where y: "f x = Inr y" and r: "collect f xs = Inr ys'" and ys: "ys = y # ys'"
    by (auto split: sum.splits)
  from Cons.IH[OF r] show ?case using y ys by (auto simp: nth_Cons split: nat.splits)
qed

lemma collect_total:
  "(\<And>x. x \<in> set xs \<Longrightarrow> \<exists>y. f x = Inr y) \<Longrightarrow> \<exists>ys. collect f xs = Inr ys"
proof (induction xs)
  case Nil
  then show ?case by simp
next
  case (Cons x xs)
  then obtain y where "f x = Inr y" by auto
  moreover from Cons obtain ys where "collect f xs = Inr ys" by auto
  ultimately show ?case by simp
qed

lemma next_area_total:
  "fl \<in> p_floor ` set pts \<Longrightarrow> \<exists>a. next_area pts fl = Inr a"
  unfolding next_area_def
  by (cases "find (\<lambda>p. p_floor p = fl) pts") (auto simp: find_None_iff)

lemma set_unique_floors: "set (unique_floors fls) = set fls"
  by (simp add: unique_floors_def)

lemma make_row_total:
  "fl \<in> p_floor ` set (points g) \<Longrightarrow> \<exists>rw. make_row g pairs tp ti ts (i, fl) = Inr rw"
  using next_area_total[of fl "points g"] by (auto simp: make_row_def)

lemma group_rows_total: "\<exists>rows. group_rows g = Inr rows"
  unfolding group_rows_def Let_def
proof (rule collect_total)
  fix x assume "x \<in> set (enumerate 0 (unique_floors (map p_floor (points g))))"
  then have "snd x \<in> p_floor ` set (points g)"
    by (metis enumerate_eq_zip in_set_zipE prod.collapse set_unique_floors set_map)
  then show "\<exists>y. make_row g (weighted_pairs (map p_w_area (points g)))
          (py_round (sum_list (map (\<lambda>pair. pair ! 0) (filter (\<lambda>pair. 0 < length pair) (weighted_pairs (map p_w_area (points g)))))) 2)
          (py_round (sum_list (map (\<lambda>pair. pair ! 1) (filter (\<lambda>pair. 1 < length pair) (weighted_pairs (map p_w_area (points g)))))) 2)
          (py_round (sum_list (map p_w_area (points g))) 2) x = Inr y"
    using make_row_total[of "snd x" g _ _ _ _ "fst x"] by simp
qed

lemma make_row_loads:
  "make_row g pairs tp ti ts (i, fl) = Inr rw \<Longrightarrow>
     Permanent_Load rw = load_cell (pair_item pairs i 0) \<and>
     Imposed_Load rw = load_cell (pair_item pairs i 1)"
  by (auto simp: make_row_def split: sum.splits)

lemma group_rows_loads:
  assumes "group_rows g = Inr rows" "i < length rows"
  shows "Permanent_Load (rows ! i) = load_cell (pair_item (weighted_pairs (map p_w_area (points g))) i 0)
       \<and> Imposed_Load (rows ! i) = load_cell (pair_item (weighted_pairs (map p_w_area (points g))) i 1)"
proof -
  let ?ufs = "unique_floors (map p_floor (points g))"
  let ?pairs = "weighted_pairs (map p_w_area (points g))"
  obtain tp ti ts where c: "collect (make_row g ?pairs tp ti ts) (enumerate 0 ?ufs) = Inr rows"
    using assms(1) unfolding group_rows_def Let_def by blast
  from collect_Inr[OF c] have len: "length rows = length ?ufs"
    and nth: "\<forall>k<length (enumerate 0 ?ufs). make_row g ?pairs tp ti ts (enumerate 0 ?ufs ! k) = Inr (rows ! k)"
    by auto
  have i: "i < length ?ufs" using assms(2) len by simp
  then have "enumerate 0 ?ufs ! i = (i, ?ufs ! i)" by (simp add: nth_enumerate_eq)
  with nth i have "make_row g ?pairs tp ti ts (i, ?ufs ! i) = Inr (rows ! i)" by auto
  from make_row_loads[OF this] show ?thesis .
qed

lemma load_cell_cases:
  "load_cell w = (case w of None \<Rightarrow> None | Some v \<Rightarrow> if v = 0 then None else Some (py_round v 2))"
  by (simp add: load_cell_def split: option.splits)

lemma py_round_1234: "py_round (617 / 500) 2 = 123 / 100"
  by (simp add: py_round_def)

text \<open>
  Claim C10. Building the rows of a group raises nothing and gives one row per floor
  of the group. The permanent load of the row of the \<open>i\<close>-th floor is the first value
  of the \<open>i\<close>-th pair of weighted areas, the imposed load the second: a value that is
  exactly 0 is reported as \<open>None\<close>, as a value that does not exist is, and any other
  value is reported rounded to two decimals.
\<close>

theorem zero_load_reported_missing:
  "(\<exists>rs. group_rows g = Inr rs) \<and>
   (group_rows g = Inr rows \<and> i < length rows \<longrightarrow>
      length rows = length (unique_floors (map p_floor (points g))) \<and>
      Permanent_Load (rows ! i) =
        (case pair_item (weighted_pairs (map p_w_area (points g))) i 0 of
           None \<Rightarrow> None
         | Some v \<Rightarrow> if v = 0 then None else Some (py_round v 2)) \<and>
      Imposed_Load (rows ! i) =
        (case pair_item (weighted_pairs (map p_w_area (points g))) i 1 of
           None \<Rightarrow> None
         | Some v \<Rightarrow> if v = 0 then None else Some (py_round v 2)))"
proof -
  have len: "group_rows g = Inr rows \<Longrightarrow>
      length rows = length (unique_floors (map p_floor (points g)))"
    unfolding group_rows_def Let_def using collect_Inr by fastforce
  show ?thesis
  proof (intro conjI impI)
    show "\<exists>rs. group_rows g = Inr rs" by (rule group_rows_total)
  next
    assume a: "group_rows g = Inr rows \<and> i < length rows"
    then show "length rows = length (unique_floors (map p_floor (points g)))"
      using len by simp
  next
    assume a: "group_rows g = Inr rows \<and> i < length rows"
    then show "Permanent_Load (rows ! i) =
        (case pair_item (weighted_pairs (map p_w_area (points g))) i 0 of
           None \<Rightarrow> None
         | Some v \<Rightarrow> if v = 0 then None else Some (py_round v 2))"
      using group_rows_loads[of g rows i] by (simp add: load_cell_cases)
  next
    assume a: "group_rows g = Inr rows \<and> i < length rows"
    then show "Imposed_Load (rows ! i) =
        (case pair_item (weighted_pairs (map p_w_area (points g))) i 1 of
           None \<Rightarrow> None
         | Some v \<Rightarrow> if v = 0 then None else Some (py_round v 2))"
      using group_rows_loads[of g rows i] by (simp add: load_cell_cases)
  qed
qed

theorem zero_load_reported_missing_witness:
  "group_rows \<lparr>gid = ''C001'', points =
      [\<lparr>p_floor = ''02'', p_x = 1, p_y = 1, p_area = 2, p_w_area = 0, p_ctype = ''Column''\<rparr>,
       \<lparr>p_floor = ''02'', p_x = 1, p_y = 1, p_area = 2, p_w_area = 1234 / 1000,
        p_ctype = ''Column''\<rparr>]\<rparr>
   = Inr [\<lparr>Column_ID = ''C001'', row_X = py_round 1 2, row_Y = py_round 1 2, Floor = ''02'',
           row_Type = ''Column'', Area_m2 = py_round 2 2, Permanent_Load = None,
           Imposed_Load = Some (123 / 100),
           Total_Permanent_Load = Some (py_round 0 2),
           Total_Imposed_Load = Some (123 / 100),
           Total_SLS_Load = Some (123 / 100)\<rparr>]"
proof -
  let ?g = "\<lparr>gid = ''C001'', points =
      [\<lparr>p_floor = ''02'', p_x = 1, p_y = 1, p_area = 2, p_w_area = 0, p_ctype = ''Column''\<rparr>,
       \<lparr>p_floor = ''02'', p_x = 1, p_y = 1, p_area = 2, p_w_area = 1234 / 1000,
        p_ctype = ''Column''\<rparr>]\<rparr>"
  have e: "group_rows ?g = Inr [\<lparr>Column_ID = ''C001'', row_X = py_round 1 2, row_Y = py_round 1 2, Floor = ''02'',
           row_Type = ''Column'', Area_m2 = py_round 2 2, Permanent_Load = None,
           Imposed_Load = Some (123 / 100),
           Total_Permanent_Load = Some (py_round 0 2),
           Total_Imposed_Load = Some (123 / 100),
           Total_SLS_Load = Some (123 / 100)\<rparr>]"
    by (simp add: group_rows_def unique_floors_def make_row_def next_area_def floor_type_def
        pair_item_def load_cell_def py_round_1234)
  show ?thesis using e zero_load_reported_missing[of ?g _ 0] by simp
qed


section \<open>Zone weights\<close>

lemma weighted_zones_of_eq:
  "weighted_zones_of K lt zs =
     map (\<lambda>z. \<lparr>polygon = Polygon K (get_or (Vertices z) []), weight = unit_load_of lt z\<rparr>)
       (filter (\<lambda>z. 3 \<le> length (get_or (Vertices z) [])) zs)"
  by (induction zs) (simp_all add: Let_def)

text \<open>
  Claim C9. The weighted zones of a pass are built, in order, from the load zones that
  have at least three vertices (a zone with fewer is no polygon and is left out). The
  weight of a zone without a unit load is 1.0 in the pass \<open>Permanent Loading\<close> and 0.8
  in the pass \<open>Imposed Loading\<close>; the weight of a zone with a unit load is that unit
  load.
\<close>

theorem default_unit_loads:
  "weighted_zones_of K load_type zs =
     map (\<lambda>z. \<lparr>polygon = Polygon K (get_or (Vertices z) []),
                weight = (case UnitLoad z of
                            None \<Rightarrow> if load_type = ''Permanent Loading'' then 1 else 8 / 10
                          | Some u \<Rightarrow> u)\<rparr>)
       (filter (\<lambda>z. 3 \<le> length (get_or (Vertices z) [])) zs) \<and>
   weighted_zones_of K ''Permanent Loading'' [\<lparr>Vertices = Some [p, q, r], UnitLoad = None\<rparr>] =
     [\<lparr>polygon = Polygon K [p, q, r], weight = 1\<rparr>] \<and>
   weighted_zones_of K ''Imposed Loading'' [\<lparr>Vertices = Some [p, q, r], UnitLoad = None\<rparr>] =
     [\<lparr>polygon = Polygon K [p, q, r], weight = 8 / 10\<rparr>] \<and>
   weighted_zones_of K load_type [\<lparr>Vertices = Some [p, q, r], UnitLoad = Some u\<rparr>] =
     [\<lparr>polygon = Polygon K [p, q, r], weight = u\<rparr>]"
  by (simp add: weighted_zones_of_eq unit_load_of_def get_or_def)

section \<open>Floor outlines\<close>

lemma max_by_area_in: "max_by_area K b ps \<in> set (b # ps)"
  by (induction ps arbitrary: b) auto

lemma max_by_area_best: "area K b \<le> area K (max_by_area K b ps)"
proof (induction ps arbitrary: b)
  case Nil
  then show ?case by simp
next
  case (Cons p ps)
  show ?case using Cons.IH[of p] Cons.IH[of b] by auto
qed

lemma max_by_area_ge: "q \<in> set (b # ps) \<Longrightarrow> area K q \<le> area K (max_by_area K b ps)"
proof (induction ps arbitrary: b)
  case Nil
  then show ?case by simp
next
  case (Cons p ps)
  consider "q = b" | "q = p" | "q \<in> set ps" using Cons.prems by auto
  then show ?case
  proof cases
    case 1
    then show ?thesis using max_by_area_best[of K b "p # ps"] by simp
  next
    case 2
    show ?thesis
    proof (cases "area K b < area K p")
      case True
      then show ?thesis using 2 max_by_area_best[of K p ps] by simp
    next
      case False
      then show ?thesis using 2 max_by_area_best[of K b ps] by simp
    qed
  next
    case 3
    then show ?thesis using Cons.IH[of p] Cons.IH[of b] by auto
  qed
qed

lemma main_outline_Cons:
  "all_polygons \<noteq> [] \<Longrightarrow> merged_polys_of (unary_union K all_polygons) = p # ps \<Longrightarrow>
     main_outline K all_polygons = Some (exterior K (max_by_area K p ps))"
  by (simp add: main_outline_def)

lemma main_outline_largest:
  assumes "all_polygons \<noteq> []" "merged_polys_of (unary_union K all_polygons) = p # ps"
  shows "\<exists>q \<in> set (p # ps). main_outline K all_polygons = Some (exterior K q) \<and>
           (\<forall>q' \<in> set (p # ps). area K q' \<le> area K q)"
proof -
  have 1: "main_outline K all_polygons = Some (exterior K (max_by_area K p ps))"
    using assms by (rule main_outline_Cons)
  have 2: "max_by_area K p ps \<in> set (p # ps)" by (rule max_by_area_in)
  have 3: "\<forall>q' \<in> set (p # ps). area K q' \<le> area K (max_by_area K p ps)"
    using max_by_area_ge[of _ p ps K] by blast
  from 1 2 3 show ?thesis by (rule_tac x = "max_by_area K p ps" in bexI) simp_all
qed

lemma main_outline_two:
  assumes "all_polygons \<noteq> []"
    and "unary_union K all_polygons = Multi [a, b] \<or> unary_union K all_polygons = Multi [b, a]"
    and "area K b < area K a"
  shows "main_outline K all_polygons = Some (exterior K a)"
proof -
  from assms(2) consider "unary_union K all_polygons = Multi [a, b]"
    | "unary_union K all_polygons = Multi [b, a]" by blast
  then show ?thesis
  proof cases
    case 1
    then have "merged_polys_of (unary_union K all_polygons) = a # [b]"
      by (simp add: merged_polys_of_def)
    from main_outline_Cons[OF assms(1) this] show ?thesis using assms(3) by simp
  next
    case 2
    then have "merged_polys_of (unary_union K all_polygons) = b # [a]"
      by (simp add: merged_polys_of_def)
    from main_outline_Cons[OF assms(1) this] show ?thesis using assms(3) by simp
  qed
qed

text \<open>
  Claim C8. When the union of a level group's polygons has parts, the outline stored
  for the group is the exterior ring of one part, a part of the largest area, and no
  other part is stored. With two parts of areas 10 and 3, in either order, the outline
  is the ring of the part of area 10.
\<close>

theorem largest_polygon_kept:
  "(all_polygons \<noteq> [] \<and> merged_polys_of (unary_union K all_polygons) = p # ps \<longrightarrow>
      (\<exists>q \<in> set (p # ps). main_outline K all_polygons = Some (exterior K q) \<and>
         (\<forall>q' \<in> set (p # ps). area K q' \<le> area K q))) \<and>
   (all_polygons \<noteq> [] \<and>
    (unary_union K all_polygons = Multi [a, b] \<or> unary_union K all_polygons = Multi [b, a]) \<and>
    area K a = 10 \<and> area K b = 3 \<longrightarrow>
      main_outline K all_polygons = Some (exterior K a))"
proof (rule conjI)
  show "all_polygons \<noteq> [] \<and> merged_polys_of (unary_union K all_polygons) = p # ps \<longrightarrow>
      (\<exists>q \<in> set (p # ps). main_outline K all_polygons = Some (exterior K q) \<and>
         (\<forall>q' \<in> set (p # ps). area K q' \<le> area K q))"
    using main_outline_largest[of all_polygons K p ps] by (rule_tac impI) (erule conjE)
next
  show "all_polygons \<noteq> [] \<and>
    (unary_union K all_polygons = Multi [a, b] \<or> unary_union K all_polygons = Multi [b, a]) \<and>
    area K a = 10 \<and> area K b = 3 \<longrightarrow>
      main_outline K all_polygons = Some (exterior K a)"
  proof (rule impI)
    assume h: "all_polygons \<noteq> [] \<and>
      (unary_union K all_polygons = Multi [a, b] \<or> unary_union K all_polygons = Multi [b, a]) \<and>
      area K a = 10 \<and> area K b = 3"
    then have "area K b < area K a" by simp
    with h show "main_outline K all_polygons = Some (exterior K a)"
      using main_outline_two[of all_polygons K a b] by blast
  qed
qed

theorem largest_polygon_kept_witness:
  "unary_union ring_kernel [[(10, 0), (13, 0), (13, 1), (10, 1)], [(0, 0), (5, 0), (5, 2), (0, 2)]]
     = Multi [[(10, 0), (13, 0), (13, 1), (10, 1)], [(0, 0), (5, 0), (5, 2), (0, 2)]] \<and>
   area ring_kernel [(0, 0), (5, 0), (5, 2), (0, 2)] = 10 \<and>
   area ring_kernel [(10, 0), (13, 0), (13, 1), (10, 1)] = 3 \<and>
   main_outline ring_kernel
     [[(10, 0), (13, 0), (13, 1), (10, 1)], [(0, 0), (5, 0), (5, 2), (0, 2)]]
     = Some [(0, 0), (5, 0), (5, 2), (0, 2)]"
proof -
  let ?a = "[(0, 0), (5, 0), (5, 2), (0, 2)] :: point list"
  let ?b = "[(10, 0), (13, 0), (13, 1), (10, 1)] :: point list"
  have u: "unary_union ring_kernel [?b, ?a] = Multi [?b, ?a]"
    by (simp add: ring_kernel_def ring_union_def)
  have a: "area ring_kernel ?a = 10 \<and> area ring_kernel ?b = 3"
    by (simp add: ring_kernel_def ring_area_def ring_edges_def)
  have e: "exterior ring_kernel ?a = ?a"
    by (simp add: ring_kernel_def)
  have "main_outline ring_kernel [?b, ?a] = Some (exterior ring_kernel ?a)"
    by (rule largest_polygon_kept[of "[?b, ?a]" ring_kernel ?b "[?a]" ?a ?b,
          THEN conjunct2, rule_format])
       (simp add: u a)
  then show ?thesis using u a e by simp
qed

section \<open>Degenerate sites\<close>



text \<open>
  The test \<open>vor.points.shape[1] != 2\<close> of the builder never fires in this program: the
  sites that the engine hands to \<open>Voronoi\<close> are pairs, and the loop over the regions
  raises nothing but \<open>IndexError\<close>.
\<close>

lemma cell_of_error:
  "cell_of K bp pts zs verts ir = Inl err \<Longrightarrow> err = IndexError"
  unfolding cell_of_def Let_def by (auto split: prod.splits if_splits)

lemma cells_of_error:
  "cells_of K bp pts zs verts irs = Inl err \<Longrightarrow> err = IndexError"
proof (induction irs)
  case Nil
  then show ?case by simp
next
  case (Cons ir irs)
  then show ?case by (auto split: sum.splits dest: cell_of_error)
qed

lemma builder_error_on_pairs:
  assumes "vor_points vor = map (\<lambda>p. [fst p, snd p]) sites"
    and "voronoi_finite_polygons_2d vor = Inl err"
  shows "err = IndexError"
proof (cases sites)
  case Nil
  with assms show ?thesis by (simp add: voronoi_finite_polygons_2d_def)
next
  case (Cons p ps)
  with assms(1) have "vor_points vor = [fst p, snd p] # map (\<lambda>p. [fst p, snd p]) ps" by simp
  with assms(2) show ?thesis
    by (auto simp: voronoi_finite_polygons_2d_def Let_def split: option.splits)
qed

lemma engine_never_ValueError:
  "compute_weighted_voronoi K (Voronoi_qhull diagram) b pts zs \<noteq> Inl ValueError"
proof
  assume a: "compute_weighted_voronoi K (Voronoi_qhull diagram) b pts zs = Inl ValueError"
  show False
  proof (cases "pts = [] \<or> length pts < 3")
    case True
    with a show False by (auto simp: compute_weighted_voronoi_def)
  next
    case False
    show False
    proof (cases "on_one_line pts")
      case True
      with a False show False by (auto simp: compute_weighted_voronoi_def Voronoi_qhull_def)
    next
      case line: False
      let ?vor = "(diagram pts)\<lparr>vor_points := map (\<lambda>p. [fst p, snd p]) pts\<rparr>"
      have v: "Voronoi_qhull diagram pts = Inr ?vor" using line by (simp add: Voronoi_qhull_def)
      have p: "vor_points ?vor = map (\<lambda>p. [fst p, snd p]) pts" by simp
      show False
      proof (cases "voronoi_finite_polygons_2d ?vor")
        case (Inl err)
        from builder_error_on_pairs[OF p Inl] have "err = IndexError" .
        with a False v Inl show False by (auto simp: compute_weighted_voronoi_def)
      next
        case (Inr res)
        obtain regs verts where res: "res = (regs, verts)" by (cases res)
        from a False v Inr res
        have "\<exists>err. cells_of K (Polygon K b) pts zs verts (enumerate 0 regs) = Inl err \<and>
                err = ValueError"
          by (auto simp: compute_weighted_voronoi_def Let_def split: sum.splits)
        then show False using cells_of_error by fastforce
      qed
    qed
  qed
qed




text \<open>
  Claim C6, as stated, fails: two sites are fewer than three, so the engine returns no
  cell at all, whatever the geometry library computes.
\<close>

theorem two_sites_counterexample:
  "\<not> (\<exists>(K :: 'g shapely) V r1 r2 bp.
        compute_weighted_voronoi K V unit_square [(1 / 4, 1 / 2), (3 / 4, 1 / 2)]
          [\<lparr>polygon = Polygon K unit_square, weight = 1\<rparr>] = Inr ([r1, r2], bp))"
  by (simp add: compute_weighted_voronoi_def)

text \<open>
  Claim C6, amended. Given the unit square as boundary, the two support points
  (0.25, 0.5) and (0.75, 0.5) and one load zone that covers the square with weight 1.0,
  the engine returns no cells, together with the boundary polygon.
\<close>

theorem two_sites_no_cells:
  "compute_weighted_voronoi K V unit_square [(1 / 4, 1 / 2), (3 / 4, 1 / 2)]
     [\<lparr>polygon = Polygon K unit_square, weight = 1\<rparr>] = Inr ([], Polygon K unit_square)"
  by (simp add: compute_weighted_voronoi_def)

section \<open>The cells of three sites on a large floor\<close>

text \<open>
  The vertex of the diagram is the point at the same distance from the three sites, so
  it is where their three regions meet.
\<close>

lemma diagram_vertex_equidistant:
  "dist2 (3 / 2, 2) (0, 0) = 5 / 2 \<and> dist2 (3 / 2, 2) (3, 0) = 5 / 2 \<and>
   dist2 (3 / 2, 2) (0, 4) = 5 / 2"
proof -
  have "sqrt (25 / 4) = 5 / 2"
    using real_sqrt_abs[of "5 / 2"] by (simp add: power2_eq_square)
  then show ?thesis by (simp add: dist2_def power2_eq_square)
qed

lemma sqrt_9: "sqrt 9 = 3"
  using real_sqrt_abs[of 3] by simp

lemma sqrt_16: "sqrt 16 = 4"
  using real_sqrt_abs[of 4] by simp

lemma sqrt_25: "sqrt 25 = 5"
  using real_sqrt_abs[of 5] by simp

lemma arctan2_right: "0 < x \<Longrightarrow> arctan2 y x = arctan (y / x)"
  by (simp add: arctan2_def)

lemma arctan2_right_le:
  "0 < x1 \<Longrightarrow> 0 < x2 \<Longrightarrow> (arctan2 y1 x1 \<le> arctan2 y2 x2) = (y1 / x1 \<le> y2 / x2)"
  by (simp add: arctan2_def arctan_le_iff)

lemma arctan2_upper_left: "x < 0 \<Longrightarrow> 0 \<le> y \<Longrightarrow> pi / 2 < arctan2 y x"
  using arctan_lbound[of "y / x"] by (simp add: arctan2_def)

lemma arctan2_lower_left: "x < 0 \<Longrightarrow> y < 0 \<Longrightarrow> arctan2 y x < - (pi / 2)"
  using arctan_ubound[of "y / x"] by (simp add: arctan2_def)

lemma arctan2_right_bounds: "0 < x \<Longrightarrow> - (pi / 2) < arctan2 y x \<and> arctan2 y x < pi / 2"
  using arctan_ubound[of "y / x"] arctan_lbound[of "y / x"] by (simp add: arctan2_def)

lemma angle_right_upper_left:
  assumes "0 < x1" "x2 < 0" "0 \<le> y2"
  shows "(arctan2 y1 x1 \<le> arctan2 y2 x2) = True \<and> (arctan2 y2 x2 \<le> arctan2 y1 x1) = False"
proof -
  have "arctan2 y1 x1 < arctan2 y2 x2"
    using arctan2_right_bounds[OF assms(1), of y1] arctan2_upper_left[OF assms(2,3)] by linarith
  then show ?thesis by simp
qed

lemma angle_lower_left_right:
  assumes "x1 < 0" "y1 < 0" "0 < x2"
  shows "(arctan2 y1 x1 \<le> arctan2 y2 x2) = True \<and> (arctan2 y2 x2 \<le> arctan2 y1 x1) = False"
proof -
  have "arctan2 y1 x1 < arctan2 y2 x2"
    using arctan2_right_bounds[OF assms(3), of y2] arctan2_lower_left[OF assms(1,2)] by linarith
  then show ?thesis by simp
qed

lemma angle_lower_left_upper_left:
  assumes "x1 < 0" "y1 < 0" "x2 < 0" "0 \<le> y2"
  shows "(arctan2 y1 x1 \<le> arctan2 y2 x2) = True \<and> (arctan2 y2 x2 \<le> arctan2 y1 x1) = False"
proof -
  have "arctan2 y1 x1 < arctan2 y2 x2"
    using arctan2_upper_left[OF assms(3,4)] arctan2_lower_left[OF assms(1,2)] pi_gt_zero
    by linarith
  then show ?thesis by simp
qed

lemma mean3: "mean0 [a, b, c] = ((fst a + fst b + fst c) / 3, (snd a + snd b + snd c) / 3)"
  by (simp add: mean0_def)

lemma all_ridges_0: "all_ridges three_site_diagram 0 = [(1, - 1, 0), (2, - 1, 0)]"
  by (simp add: all_ridges_def three_site_diagram_def)

lemma all_ridges_1: "all_ridges three_site_diagram (Suc 0) = [(0, - 1, 0), (2, - 1, 0)]"
  by (simp add: all_ridges_def three_site_diagram_def)

lemma all_ridges_2: "all_ridges three_site_diagram 2 = [(0, - 1, 0), (1, - 1, 0)]"
  by (simp add: all_ridges_def three_site_diagram_def)

lemma center3: "mean0 (map as_point (vor_points three_site_diagram)) = (1, 4 / 3)"
  by (simp add: mean0_def three_site_diagram_def as_point_def)

lemma radius3: "default_radius (map as_point (vor_points three_site_diagram)) = 8"
  by (simp add: default_radius_def ptp_def three_site_diagram_def as_point_def)

lemma ext_0_1: "extend_ridge three_site_diagram (1, 4 / 3) 8 0 (Suc 0, - 1, 0) (vs, reg)
   = Some (vs @ [(3 / 2, - 6)], reg @ [length vs])"
  by (simp add: extend_ridge_def py_nth_def three_site_diagram_def as_point_def norm2_def
      dot2_def mean0_def sqrt_9 sqrt_16 sqrt_25 sgn_if)

lemma ext_0_2: "extend_ridge three_site_diagram (1, 4 / 3) 8 0 (2, - 1, 0) (vs, reg)
   = Some (vs @ [(- 13 / 2, 2)], reg @ [length vs])"
  by (simp add: extend_ridge_def py_nth_def three_site_diagram_def as_point_def norm2_def
      dot2_def mean0_def sqrt_9 sqrt_16 sqrt_25 sgn_if)

lemma ext_1_0: "extend_ridge three_site_diagram (1, 4 / 3) 8 (Suc 0) (0, - 1, 0) (vs, reg)
   = Some (vs @ [(3 / 2, - 6)], reg @ [length vs])"
  by (simp add: extend_ridge_def py_nth_def three_site_diagram_def as_point_def norm2_def
      dot2_def mean0_def sqrt_9 sqrt_16 sqrt_25 sgn_if)

lemma ext_1_2: "extend_ridge three_site_diagram (1, 4 / 3) 8 (Suc 0) (2, - 1, 0) (vs, reg)
   = Some (vs @ [(79 / 10, 34 / 5)], reg @ [length vs])"
  by (simp add: extend_ridge_def py_nth_def three_site_diagram_def as_point_def norm2_def
      dot2_def mean0_def sqrt_9 sqrt_16 sqrt_25 sgn_if power2_eq_square)

lemma ext_2_0: "extend_ridge three_site_diagram (1, 4 / 3) 8 2 (0, - 1, 0) (vs, reg)
   = Some (vs @ [(- 13 / 2, 2)], reg @ [length vs])"
  by (simp add: extend_ridge_def py_nth_def three_site_diagram_def as_point_def norm2_def
      dot2_def mean0_def sqrt_9 sqrt_16 sqrt_25 sgn_if)

lemma ext_2_1: "extend_ridge three_site_diagram (1, 4 / 3) 8 2 (Suc 0, - 1, 0) (vs, reg)
   = Some (vs @ [(79 / 10, 34 / 5)], reg @ [length vs])"
  by (simp add: extend_ridge_def py_nth_def three_site_diagram_def as_point_def norm2_def
      dot2_def mean0_def sqrt_9 sqrt_16 sqrt_25 sgn_if power2_eq_square)

lemmas angle_rules = arctan2_right_le angle_right_upper_left angle_lower_left_right
  angle_lower_left_upper_left

lemma upt_3: "[0 ..< 3] = [0, 1, 2]"
  by (simp add: upt_rec)

lemma sort_cell_0: "sort_by_angle (take 3 far_vertices) [0, Suc 0, 2] = Some [1, 0, 2]"
  by (simp add: sort_by_angle_def far_vertices_def py_nth_def mean3 Let_def upt_3 angle_rules)

lemma sort_cell_1: "sort_by_angle (take 5 far_vertices) [0, 3, 4] = Some [3, 4, 0]"
  by (simp add: sort_by_angle_def far_vertices_def py_nth_def mean3 Let_def upt_3 angle_rules)

lemma sort_cell_2: "sort_by_angle far_vertices [0, 5, 6] = Some [5, 0, 6]"
  by (simp add: sort_by_angle_def far_vertices_def py_nth_def mean3 Let_def upt_3 angle_rules)

lemma region_0:
  "finite_region three_site_diagram (1, 4 / 3) 8 (0, 1) ([], [(3 / 2, 2)])
   = Some ([[1, 0, 2]], take 3 far_vertices)"
proof -
  have e: "extend_ridges three_site_diagram (1, 4 / 3) 8 0 (all_ridges three_site_diagram 0)
             ([(3 / 2, 2)], [0]) = Some (take 3 far_vertices, [0, 1, 2])"
    by (simp add: all_ridges_0 ext_0_1 ext_0_2 far_vertices_def)
  have r: "py_nth (regions three_site_diagram) 1 = Some [- 1, 0]"
    by (simp add: py_nth_def three_site_diagram_def)
  show ?thesis
    by (simp add: finite_region_def r e sort_cell_0)
qed

lemma region_1:
  "finite_region three_site_diagram (1, 4 / 3) 8 (Suc 0, 2) ([[Suc 0, 0, 2]], take 3 far_vertices)
   = Some ([[1, 0, 2], [3, 4, 0]], take 5 far_vertices)"
proof -
  have e: "extend_ridges three_site_diagram (1, 4 / 3) 8 (Suc 0) (all_ridges three_site_diagram (Suc 0))
             (take 3 far_vertices, [0]) = Some (take 5 far_vertices, [0, 3, 4])"
    by (simp add: all_ridges_1 ext_1_0 ext_1_2 far_vertices_def)
  have r: "py_nth (regions three_site_diagram) 2 = Some [- 1, 0]"
    by (simp add: py_nth_def three_site_diagram_def)
  show ?thesis
    by (simp add: finite_region_def r e sort_cell_1)
qed

lemma region_2:
  "finite_region three_site_diagram (1, 4 / 3) 8 (2, 3) ([[Suc 0, 0, 2], [3, 4, 0]], take 5 far_vertices)
   = Some ([[1, 0, 2], [3, 4, 0], [5, 0, 6]], far_vertices)"
proof -
  have e: "extend_ridges three_site_diagram (1, 4 / 3) 8 2 (all_ridges three_site_diagram 2)
             (take 5 far_vertices, [0]) = Some (far_vertices, [0, 5, 6])"
    by (simp add: all_ridges_2 ext_2_0 ext_2_1 far_vertices_def)
  have r: "py_nth (regions three_site_diagram) 3 = Some [- 1, 0]"
    by (simp add: py_nth_def three_site_diagram_def)
  show ?thesis
    by (simp add: finite_region_def r e sort_cell_2)
qed

lemma voronoi_finite_polygons_2d_rows:
  "vor_points vor = row # rows \<Longrightarrow> length row = 2 \<Longrightarrow>
     voronoi_finite_polygons_2d vor =
       (case finite_regions vor (mean0 (map as_point (vor_points vor)))
               (default_radius (map as_point (vor_points vor)))
               (enumerate 0 (point_region vor)) ([], map as_point (vertices vor)) of
          None \<Rightarrow> Inl IndexError
        | Some res \<Rightarrow> Inr res)"
  by (simp add: voronoi_finite_polygons_2d_def Let_def)

lemma finite_polygons_three_sites:
  "voronoi_finite_polygons_2d three_site_diagram = Inr ([[1, 0, 2], [3, 4, 0], [5, 0, 6]], far_vertices)"
proof -
  have p: "vor_points three_site_diagram = [0, 0] # [[3, 0], [0, 4]]"
    by (simp add: three_site_diagram_def)
  have q: "enumerate 0 (point_region three_site_diagram) = [(0, 1), (1, 2), (2, 3)]"
    by (simp add: three_site_diagram_def)
  have v: "map as_point (vertices three_site_diagram) = [(3 / 2, 2)]"
    by (simp add: three_site_diagram_def as_point_def)
  have f: "finite_regions three_site_diagram (1, 4 / 3) 8 [(0, 1), (1, 2), (2, 3)]
             ([], [(3 / 2, 2)]) = Some ([[1, 0, 2], [3, 4, 0], [5, 0, 6]], far_vertices)"
    by (simp add: region_0 region_1 region_2)
  have "voronoi_finite_polygons_2d three_site_diagram =
      (case finite_regions three_site_diagram (1, 4 / 3) 8 [(0, 1), (1, 2), (2, 3)]
              ([], [(3 / 2, 2)]) of
         None \<Rightarrow> Inl IndexError
       | Some res \<Rightarrow> Inr res)"
    using voronoi_finite_polygons_2d_rows[OF p] by (simp only: center3 radius3 q v) simp
  then show ?thesis by (simp only: f option.case)
qed

lemma clip_walk_inside:
  "0 \<le> side a b s \<Longrightarrow> \<forall>p \<in> set ring. 0 \<le> side a b p \<Longrightarrow> clip_walk a b s ring = ring"
  by (induction ring arbitrary: s) simp_all

lemma clip_edge_inside:
  "\<forall>p \<in> set ring. 0 \<le> side (fst ab) (snd ab) p \<Longrightarrow> clip_edge ab ring = ring"
  by (cases "ring = []") (simp_all add: clip_edge_def clip_walk_inside)

lemma fold_clip_inside:
  "\<forall>ab \<in> set es. \<forall>p \<in> set ring. 0 \<le> side (fst ab) (snd ab) p \<Longrightarrow>
     fold clip_edge es ring = ring"
  by (induction es) (simp_all add: clip_edge_inside)

lemma ring_intersection_inside:
  "\<forall>ab \<in> set (ring_edges clip). \<forall>p \<in> set ring. 0 \<le> side (fst ab) (snd ab) p \<Longrightarrow>
     ring_intersection ring clip = ring"
  unfolding ring_intersection_def by (rule fold_clip_inside)

lemma floor_edges:
  "ring_edges floor_20m =
     [((- 10, - 10), (10, - 10)), ((10, - 10), (10, 10)), ((10, 10), (- 10, 10)),
      ((- 10, 10), (- 10, - 10))]"
  by (simp add: ring_edges_def floor_20m_def)

lemma floor_area: "ring_area floor_20m = 400"
  by (simp add: ring_area_def floor_edges)

lemma clip_cells:
  "ring_intersection cell_0 floor_20m = cell_0"
  "ring_intersection cell_1 floor_20m = cell_1"
  "ring_intersection cell_2 floor_20m = cell_2"
  by (rule ring_intersection_inside, simp add: floor_edges side_def cell_0_def cell_1_def cell_2_def)+

lemma cell_areas:
  "ring_area cell_0 = 32" "ring_area cell_1 = 128 / 5" "ring_area cell_2 = 96 / 5"
  by (simp_all add: ring_area_def ring_edges_def cell_0_def cell_1_def cell_2_def)

lemma region_rings:
  "[far_vertices ! Suc 0, far_vertices ! 0, far_vertices ! 2] = cell_0"
  "[far_vertices ! 3, far_vertices ! 4, far_vertices ! 0] = cell_1"
  "[far_vertices ! 5, far_vertices ! 0, far_vertices ! 6] = cell_2"
  by (simp_all add: far_vertices_def cell_0_def cell_1_def cell_2_def)

lemma cell_nonempty: "cell_0 \<noteq> []" "cell_1 \<noteq> []" "cell_2 \<noteq> []"
  by (simp_all add: cell_0_def cell_1_def cell_2_def)

lemma length_far_vertices: "length far_vertices = 7"
  by (simp add: far_vertices_def)

lemma cell_of_0:
  "cell_of ring_kernel floor_20m three_sites zs far_vertices (0, [Suc 0, 0, 2])
   = Inr (Some \<lparr>index = 0, point = (0, 0), area_raw = 32,
                area_weighted = weighted_sum ring_kernel cell_0 zs, region_polygon = cell_0\<rparr>)"
  by (simp add: cell_of_def length_far_vertices region_rings ring_kernel_def clip_cells cell_nonempty
      cell_areas three_sites_def Let_def)

lemma cell_of_1:
  "cell_of ring_kernel floor_20m three_sites zs far_vertices (Suc 0, [3, 4, 0])
   = Inr (Some \<lparr>index = 1, point = (3, 0), area_raw = 128 / 5,
                area_weighted = weighted_sum ring_kernel cell_1 zs, region_polygon = cell_1\<rparr>)"
  by (simp add: cell_of_def length_far_vertices region_rings ring_kernel_def clip_cells cell_nonempty
      cell_areas three_sites_def Let_def)

lemma cell_of_2:
  "cell_of ring_kernel floor_20m three_sites zs far_vertices (Suc (Suc 0), [5, 0, 6])
   = Inr (Some \<lparr>index = 2, point = (0, 4), area_raw = 96 / 5,
                area_weighted = weighted_sum ring_kernel cell_2 zs, region_polygon = cell_2\<rparr>)"
  by (simp add: cell_of_def length_far_vertices region_rings ring_kernel_def clip_cells cell_nonempty
      cell_areas three_sites_def Let_def)

lemma three_site_cells:
  "compute_weighted_voronoi ring_kernel (\<lambda>sites. Inr three_site_diagram) floor_20m three_sites zs
   = Inr ([\<lparr>index = 0, point = (0, 0), area_raw = 32,
            area_weighted = weighted_sum ring_kernel cell_0 zs, region_polygon = cell_0\<rparr>,
           \<lparr>index = 1, point = (3, 0), area_raw = 128 / 5,
            area_weighted = weighted_sum ring_kernel cell_1 zs, region_polygon = cell_1\<rparr>,
           \<lparr>index = 2, point = (0, 4), area_raw = 96 / 5,
            area_weighted = weighted_sum ring_kernel cell_2 zs, region_polygon = cell_2\<rparr>],
          floor_20m)"
proof -
  have n: "three_sites \<noteq> [] \<and> \<not> length three_sites < 3" by (simp add: three_sites_def)
  have c: "cells_of ring_kernel floor_20m three_sites zs far_vertices
             [(0, [Suc 0, 0, 2]), (Suc 0, [3, 4, 0]), (Suc (Suc 0), [5, 0, 6])]
           = Inr [\<lparr>index = 0, point = (0, 0), area_raw = 32,
            area_weighted = weighted_sum ring_kernel cell_0 zs, region_polygon = cell_0\<rparr>,
           \<lparr>index = 1, point = (3, 0), area_raw = 128 / 5,
            area_weighted = weighted_sum ring_kernel cell_1 zs, region_polygon = cell_1\<rparr>,
           \<lparr>index = 2, point = (0, 4), area_raw = 96 / 5,
            area_weighted = weighted_sum ring_kernel cell_2 zs, region_polygon = cell_2\<rparr>]"
    by (simp add: cell_of_0 cell_of_1 cell_of_2)
  have k: "Polygon ring_kernel floor_20m = floor_20m" by (simp add: ring_kernel_def)
  show ?thesis
    unfolding compute_weighted_voronoi_def Let_def k
    by (simp add: n finite_polygons_three_sites cell_of_0 cell_of_1 cell_of_2)
qed

text \<open>
  Claim C2 fails on the code. On a square floor of 20 m by 20 m with the three sites
  (0, 0), (3, 0) and (0, 4), the engine returns three cells, the triangles between the
  vertex of the diagram and the far points. None of them is cut by the boundary; their
  raw areas are 32, 25.6 and 19.2, together 76.8, and the area of the floor is 400.
\<close>

theorem cells_do_not_tile_floor:
  "\<exists>cells. compute_weighted_voronoi ring_kernel (\<lambda>sites. Inr three_site_diagram) floor_20m
              three_sites [\<lparr>polygon = floor_20m, weight = 1\<rparr>] = Inr (cells, floor_20m) \<and>
           map point cells = three_sites \<and>
           map area_raw cells = [32, 128 / 5, 96 / 5] \<and>
           sum_list (map area_raw cells) = 384 / 5 \<and>
           area ring_kernel floor_20m = 400"
proof -
  have a: "area ring_kernel floor_20m = 400" by (simp add: ring_kernel_def floor_area)
  show ?thesis unfolding three_site_cells by (simp add: three_sites_def a)
qed

section \<open>Weighted areas\<close>

lemma fold_weighted_acc:
  "fold (\<lambda>zone acc. (let inter = intersection K poly (polygon zone)
              in if \<not> is_empty K inter then acc + area K inter * weight zone else acc)) zs a
   = a + sum_list (map (\<lambda>z. if is_empty K (intersection K poly (polygon z)) then 0
                              else area K (intersection K poly (polygon z)) * weight z) zs)"
  by (induction zs arbitrary: a) (simp_all add: Let_def)

lemma weighted_sum_eq:
  "weighted_sum K poly zs =
     sum_list (map (\<lambda>z. if is_empty K (intersection K poly (polygon z)) then 0
                         else area K (intersection K poly (polygon z)) * weight z) zs)"
  unfolding weighted_sum_def by (simp add: fold_weighted_acc)

lemma weighted_sum_no_overlap:
  "(\<forall>z \<in> set zs. is_empty K (intersection K poly (polygon z))) \<Longrightarrow> weighted_sum K poly zs = 0"
  unfolding weighted_sum_eq by (induction zs) simp_all

lemma weighted_sum_overlap:
  "weighted_sum K poly zs = sum_list (map (\<lambda>z. overlap K poly z * weight z) zs)"
  unfolding weighted_sum_eq overlap_def by (rule arg_cong[where f=sum_list]) (rule map_cong, auto)

lemma weighted_sum_le:
  assumes "\<forall>z \<in> set zs. 0 \<le> overlap K poly z" "\<forall>z \<in> set zs. weight z \<le> W"
  shows "weighted_sum K poly zs \<le> sum_list (map (overlap K poly) zs) * W"
  unfolding weighted_sum_overlap using assms
proof (induction zs)
  case Nil
  then show ?case by simp
next
  case (Cons z zs)
  have "overlap K poly z * weight z \<le> overlap K poly z * W"
    using Cons.prems by (simp add: mult_left_mono)
  moreover have "sum_list (map (\<lambda>z. overlap K poly z * weight z) zs) \<le> sum_list (map (overlap K poly) zs) * W"
    using Cons by simp
  ultimately show ?case by (simp add: algebra_simps)
qed

lemma cell_of_record:
  assumes "cell_of K bp pts zs verts ir = Inr (Some r)"
  shows "area_raw r = area K (region_polygon r) \<and> area_weighted r = weighted_sum K (region_polygon r) zs
       \<and> \<not> is_empty K (region_polygon r)"
  using assms unfolding cell_of_def Let_def by (auto split: prod.splits if_splits)

lemma cells_of_member:
  "cells_of K bp pts zs verts irs = Inr rs \<Longrightarrow> r \<in> set rs \<Longrightarrow>
     \<exists>ir \<in> set irs. cell_of K bp pts zs verts ir = Inr (Some r)"
proof (induction irs arbitrary: rs)
  case Nil
  then show ?case by simp
next
  case (Cons ir irs)
  from Cons.prems(1) obtain c rs' where c: "cell_of K bp pts zs verts ir = Inr c"
    and r: "cells_of K bp pts zs verts irs = Inr rs'"
    and rs: "rs = (case c of None \<Rightarrow> rs' | Some r \<Rightarrow> r # rs')"
    by (auto split: sum.splits)
  show ?case
  proof (cases "r \<in> set rs'")
    case True
    with Cons.IH[OF r] show ?thesis by auto
  next
    case False
    with rs Cons.prems(2) have "c = Some r" by (cases c) auto
    with c show ?thesis by simp
  qed
qed

lemma weighted_sum_bound:
  assumes "zs \<noteq> []" "\<forall>z \<in> set zs. 0 \<le> overlap K poly z"
    and "0 \<le> Max (weight ` set zs)"
    and "sum_list (map (overlap K poly) zs) \<le> area K poly"
  shows "weighted_sum K poly zs \<le> area K poly * Max (weight ` set zs)"
proof -
  let ?W = "Max (weight ` set zs)"
  have "\<forall>z \<in> set zs. weight z \<le> ?W" by simp
  with assms(2) have "weighted_sum K poly zs \<le> sum_list (map (overlap K poly) zs) * ?W"
    by (rule weighted_sum_le)
  also have "\<dots> \<le> area K poly * ?W" using assms(3,4) by (rule mult_right_mono[rotated])
  finally show ?thesis .
qed

text \<open>Every record that the engine returns was appended by the loop over the regions.\<close>

lemma engine_cell:
  assumes "compute_weighted_voronoi K V b pts zs = Inr (results, bp)" "r \<in> set results"
  shows "\<exists>verts ir. cell_of K (Polygon K b) pts zs verts ir = Inr (Some r)"
proof -
  from assms obtain vor regs verts where
    c: "cells_of K (Polygon K b) pts zs verts (enumerate 0 regs) = Inr results"
    unfolding compute_weighted_voronoi_def Let_def
    by (auto split: if_splits sum.splits prod.splits)
  from cells_of_member[OF c assms(2)] show ?thesis by blast
qed

lemma weighted_cell_0:
  "weighted_sum ring_kernel cell_0 [\<lparr>polygon = floor_20m, weight = w\<rparr>,
     \<lparr>polygon = floor_20m, weight = w'\<rparr>] = 32 * w + 32 * w'"
  by (simp add: weighted_sum_def ring_kernel_def clip_cells cell_nonempty cell_areas)

lemma weighted_cell_0_one:
  "weighted_sum ring_kernel cell_0 [\<lparr>polygon = floor_20m, weight = w\<rparr>] = 32 * w"
  by (simp add: weighted_sum_def ring_kernel_def clip_cells cell_nonempty cell_areas)

text \<open>
  Claim C5, as stated, fails in its first half: the loop adds the share of every zone,
  so two zones that lie over the same part of a cell are both counted. On the floor of
  20 m by 20 m with the three sites, a zone of weight 1 and a zone of weight 0.5 both
  cover the floor: the cell of the site (0, 0) has the raw area 32 and the weighted area
  48, above 32 times the largest weight 1.
\<close>

theorem overlapping_zones_exceed_bound:
  "\<exists>cells r.
     compute_weighted_voronoi ring_kernel (\<lambda>sites. Inr three_site_diagram) floor_20m three_sites
       [\<lparr>polygon = floor_20m, weight = 1\<rparr>, \<lparr>polygon = floor_20m, weight = 1 / 2\<rparr>]
       = Inr (cells, floor_20m) \<and>
     r \<in> set cells \<and> point r = (0, 0) \<and> area_raw r = 32 \<and> area_weighted r = 48 \<and>
     Max (weight ` set [\<lparr>polygon = floor_20m, weight = 1\<rparr>,
                         \<lparr>polygon = floor_20m, weight = 1 / 2 :: real\<rparr>]) = 1 \<and>
     area_raw r * Max (weight ` set [\<lparr>polygon = floor_20m, weight = 1\<rparr>,
                         \<lparr>polygon = floor_20m, weight = 1 / 2 :: real\<rparr>]) < area_weighted r"
proof -
  let ?zs = "[\<lparr>polygon = floor_20m, weight = 1\<rparr>, \<lparr>polygon = floor_20m, weight = 1 / 2 :: real\<rparr>]"
  let ?r = "\<lparr>index = 0, point = (0, 0), area_raw = 32,
             area_weighted = weighted_sum ring_kernel cell_0 ?zs, region_polygon = cell_0\<rparr>"
  let ?cells = "[?r,
      \<lparr>index = 1, point = (3, 0), area_raw = 128 / 5,
       area_weighted = weighted_sum ring_kernel cell_1 ?zs, region_polygon = cell_1\<rparr>,
      \<lparr>index = 2, point = (0, 4), area_raw = 96 / 5,
       area_weighted = weighted_sum ring_kernel cell_2 ?zs, region_polygon = cell_2\<rparr>]"
  have c: "compute_weighted_voronoi ring_kernel (\<lambda>sites. Inr three_site_diagram) floor_20m
      three_sites ?zs = Inr (?cells, floor_20m)"
    by (rule three_site_cells)
  have w: "weighted_sum ring_kernel cell_0 ?zs = 48"
    by (simp add: weighted_cell_0)
  have m: "Max (weight ` set ?zs) = 1" by simp
  show ?thesis
    by (rule exI[of _ ?cells], rule exI[of _ ?r]) (simp add: c w)
qed

text \<open>
  Claim C5, amended. For every record that the engine returns, the raw area is the area
  of the clipped cell and the weighted area is the sum over the zones of the shared area
  times the zone's weight. The weighted area is 0 when no zone overlaps the cell. It is
  at most the raw area times the largest zone weight when the shared areas and the
  largest weight are not negative and the shared areas add up to at most the raw area,
  as they do for zones that do not overlap one another.
\<close>

theorem weighted_area_bound:
  "compute_weighted_voronoi K V b pts zs = Inr (results, bp) \<and> r \<in> set results \<longrightarrow>
     area_raw r = area K (region_polygon r) \<and>
     area_weighted r = sum_list (map (\<lambda>z. overlap K (region_polygon r) z * weight z) zs) \<and>
     ((\<forall>z \<in> set zs. is_empty K (intersection K (region_polygon r) (polygon z))) \<longrightarrow>
        area_weighted r = 0) \<and>
     (zs \<noteq> [] \<and> (\<forall>z \<in> set zs. 0 \<le> overlap K (region_polygon r) z) \<and>
      0 \<le> Max (weight ` set zs) \<and>
      sum_list (map (overlap K (region_polygon r)) zs) \<le> area_raw r \<longrightarrow>
        area_weighted r \<le> area_raw r * Max (weight ` set zs))"
proof (rule impI)
  assume h: "compute_weighted_voronoi K V b pts zs = Inr (results, bp) \<and> r \<in> set results"
  then obtain verts ir where c: "cell_of K (Polygon K b) pts zs verts ir = Inr (Some r)"
    using engine_cell[of K V b pts zs results bp r] by blast
  from cell_of_record[OF c]
  have raw: "area_raw r = area K (region_polygon r)"
    and w: "area_weighted r = weighted_sum K (region_polygon r) zs" by simp_all
  have 1: "area_weighted r = sum_list (map (\<lambda>z. overlap K (region_polygon r) z * weight z) zs)"
    using w by (simp add: weighted_sum_overlap)
  have 2: "(\<forall>z \<in> set zs. is_empty K (intersection K (region_polygon r) (polygon z))) \<longrightarrow>
        area_weighted r = 0"
    using w weighted_sum_no_overlap[of zs K "region_polygon r"] by simp
  have 3: "zs \<noteq> [] \<and> (\<forall>z \<in> set zs. 0 \<le> overlap K (region_polygon r) z) \<and>
      0 \<le> Max (weight ` set zs) \<and>
      sum_list (map (overlap K (region_polygon r)) zs) \<le> area_raw r \<longrightarrow>
        area_weighted r \<le> area_raw r * Max (weight ` set zs)"
    using weighted_sum_bound[of zs K "region_polygon r"] raw w by simp
  from raw 1 2 3
  show "area_raw r = area K (region_polygon r) \<and>
     area_weighted r = sum_list (map (\<lambda>z. overlap K (region_polygon r) z * weight z) zs) \<and>
     ((\<forall>z \<in> set zs. is_empty K (intersection K (region_polygon r) (polygon z))) \<longrightarrow>
        area_weighted r = 0) \<and>
     (zs \<noteq> [] \<and> (\<forall>z \<in> set zs. 0 \<le> overlap K (region_polygon r) z) \<and>
      0 \<le> Max (weight ` set zs) \<and>
      sum_list (map (overlap K (region_polygon r)) zs) \<le> area_raw r \<longrightarrow>
        area_weighted r \<le> area_raw r * Max (weight ` set zs))"
    by (intro conjI)
qed

lemma west_edges:
  "ring_edges west_half =
     [((- 10, - 10), (0, - 10)), ((0, - 10), (0, 10)), ((0, 10), (- 10, 10)),
      ((- 10, 10), (- 10, - 10))]"
  by (simp add: ring_edges_def west_half_def)

lemma east_edges:
  "ring_edges east_half =
     [((0, - 10), (10, - 10)), ((10, - 10), (10, 10)), ((10, 10), (0, 10)),
      ((0, 10), (0, - 10))]"
  by (simp add: ring_edges_def east_half_def)

lemma cell_0_west:
  "ring_intersection cell_0 west_half = [(0, - 9 / 2), (0, 2), (- 13 / 2, 2)]"
  by (simp add: ring_intersection_def west_edges cell_0_def clip_edge_def side_def crossing_def)

lemma cell_0_east:
  "ring_intersection cell_0 east_half = [(0, - 9 / 2), (3 / 2, - 6), (3 / 2, 2), (0, 2)]"
  by (simp add: ring_intersection_def east_edges cell_0_def clip_edge_def side_def crossing_def)

lemma cell_0_far: "ring_intersection cell_0 far_square = []"
  by (simp add: ring_intersection_def ring_edges_def far_square_def cell_0_def clip_edge_def
      side_def crossing_def)

lemma overlap_west: "overlap ring_kernel cell_0 \<lparr>polygon = west_half, weight = w\<rparr> = 169 / 8"
  by (simp add: overlap_def ring_kernel_def cell_0_west ring_area_def ring_edges_def)

lemma overlap_east: "overlap ring_kernel cell_0 \<lparr>polygon = east_half, weight = w\<rparr> = 87 / 8"
  by (simp add: overlap_def ring_kernel_def cell_0_east ring_area_def ring_edges_def)

theorem weighted_area_bound_witness:
  "\<exists>cells r cells' r'.
     compute_weighted_voronoi ring_kernel (\<lambda>sites. Inr three_site_diagram) floor_20m three_sites
       [\<lparr>polygon = west_half, weight = 1\<rparr>, \<lparr>polygon = east_half, weight = 8 / 10\<rparr>]
       = Inr (cells, floor_20m) \<and>
     r \<in> set cells \<and> area_raw r = 32 \<and> region_polygon r = cell_0 \<and>
     overlap ring_kernel cell_0 \<lparr>polygon = west_half, weight = 1\<rparr> = 169 / 8 \<and>
     overlap ring_kernel cell_0 \<lparr>polygon = east_half, weight = 8 / 10\<rparr> = 87 / 8 \<and>
     Max (weight ` set [\<lparr>polygon = west_half, weight = 1\<rparr>,
                         \<lparr>polygon = east_half, weight = 8 / 10 :: real\<rparr>]) = 1 \<and>
     area_weighted r = 169 / 8 * 1 + 87 / 8 * (8 / 10) \<and>
     area_weighted r \<le> area_raw r * 1 \<and>
     compute_weighted_voronoi ring_kernel (\<lambda>sites. Inr three_site_diagram) floor_20m three_sites
       [\<lparr>polygon = far_square, weight = 1\<rparr>] = Inr (cells', floor_20m) \<and>
     r' \<in> set cells' \<and> region_polygon r' = cell_0 \<and>
     is_empty ring_kernel (intersection ring_kernel cell_0 far_square) \<and>
     area_weighted r' = 0"
proof -
  let ?V = "\<lambda>sites :: point list. (Inr three_site_diagram :: py_error + voronoi)"
  let ?zs = "[\<lparr>polygon = west_half, weight = 1\<rparr>, \<lparr>polygon = east_half, weight = 8 / 10 :: real\<rparr>]"
  let ?zs' = "[\<lparr>polygon = far_square, weight = 1 :: real\<rparr>]"
  let ?r = "\<lparr>index = 0, point = (0, 0), area_raw = 32,
             area_weighted = weighted_sum ring_kernel cell_0 ?zs, region_polygon = cell_0\<rparr>"
  let ?r' = "\<lparr>index = 0, point = (0, 0), area_raw = 32,
             area_weighted = weighted_sum ring_kernel cell_0 ?zs', region_polygon = cell_0\<rparr>"
  let ?cells = "[?r,
      \<lparr>index = 1, point = (3, 0), area_raw = 128 / 5,
       area_weighted = weighted_sum ring_kernel cell_1 ?zs, region_polygon = cell_1\<rparr>,
      \<lparr>index = 2, point = (0, 4), area_raw = 96 / 5,
       area_weighted = weighted_sum ring_kernel cell_2 ?zs, region_polygon = cell_2\<rparr>]"
  let ?cells' = "[?r',
      \<lparr>index = 1, point = (3, 0), area_raw = 128 / 5,
       area_weighted = weighted_sum ring_kernel cell_1 ?zs', region_polygon = cell_1\<rparr>,
      \<lparr>index = 2, point = (0, 4), area_raw = 96 / 5,
       area_weighted = weighted_sum ring_kernel cell_2 ?zs', region_polygon = cell_2\<rparr>]"
  have c: "compute_weighted_voronoi ring_kernel ?V floor_20m three_sites ?zs
             = Inr (?cells, floor_20m)"
    by (rule three_site_cells)
  have c': "compute_weighted_voronoi ring_kernel ?V floor_20m three_sites ?zs'
             = Inr (?cells', floor_20m)"
    by (rule three_site_cells)
  have mem: "?r \<in> set ?cells" by simp
  have mem': "?r' \<in> set ?cells'" by simp
  note A = weighted_area_bound[of ring_kernel ?V floor_20m three_sites ?zs ?cells floor_20m ?r,
      THEN mp, OF conjI[OF c mem]]
  note B = weighted_area_bound[of ring_kernel ?V floor_20m three_sites ?zs' ?cells' floor_20m ?r',
      THEN mp, OF conjI[OF c' mem']]
  have mx: "Max (weight ` set ?zs) = 1" by simp
  have wA: "area_weighted ?r = 169 / 8 * 1 + 87 / 8 * (8 / 10)"
    using A[THEN conjunct2, THEN conjunct1] by (simp add: overlap_west overlap_east)
  have bound: "area_weighted ?r \<le> area_raw ?r * Max (weight ` set ?zs)"
    by (rule A[THEN conjunct2, THEN conjunct2, THEN conjunct2, THEN mp])
       (simp add: overlap_west overlap_east)
  have em: "is_empty ring_kernel (intersection ring_kernel cell_0 far_square)"
    by (simp add: ring_kernel_def cell_0_far)
  have wB: "area_weighted ?r' = 0"
    by (rule B[THEN conjunct2, THEN conjunct2, THEN conjunct1, THEN mp]) (simp add: em)
  have bound1: "area_weighted ?r \<le> area_raw ?r * 1" using bound mx by simp
  show ?thesis
    apply (rule exI[of _ ?cells], rule exI[of _ ?r], rule exI[of _ ?cells'], rule exI[of _ ?r'])
    apply (intro conjI)
    apply (rule c)
    apply (rule mem)
    apply simp
    apply simp
    apply (rule overlap_west)
    apply (rule overlap_east)
    apply (rule mx)
    apply (rule wA)
    apply (rule bound1)
    apply (rule c')
    apply (rule mem')
    apply simp
    apply (rule em)
    apply (rule wB)
    done
qed

end
